theory Spec2Isabelle
  imports Main "HOL-Library.Word" "HOL-Library.Char_ord" "HOL-Library.List_Lexorder"
begin

unbundle bit_operations_syntax

section \<open>Strings and paths (Go standard library, Unix build)\<close>

text \<open>
  Go strings are byte sequences; they are modelled as \<open>string\<close> (lists of 8-bit
  characters).  The path functions are those of \<open>path/filepath\<close> on a Unix
  system, where the separator is the slash and there is no volume name.
\<close>

definition Separator :: char where
  "Separator = CHR ''/''"

text \<open>\<open>strings.Split(s, sep)\<close> for a separator of one byte, as the program calls it.\<close>

fun strings_Split :: "string \<Rightarrow> char \<Rightarrow> string list" where
  "strings_Split [] sep = [[]]"
| "strings_Split (c # cs) sep =
     (if c = sep then [] # strings_Split cs sep
      else (case strings_Split cs sep of
              [] \<Rightarrow> [[c]]
            | t # ts \<Rightarrow> (c # t) # ts))"

text \<open>\<open>strings.Join(elems, "/")\<close>.\<close>

fun strings_Join :: "string list \<Rightarrow> string" where
  "strings_Join [] = []"
| "strings_Join [e] = e"
| "strings_Join (e # es) = e @ Separator # strings_Join es"

text \<open>\<open>strings.TrimPrefix(s, prefix)\<close>.\<close>

definition strings_TrimPrefix :: "string \<Rightarrow> string \<Rightarrow> string" where
  "strings_TrimPrefix s pre =
     (if take (length pre) s = pre then drop (length pre) s else s)"

text \<open>
  \<open>filepath.Clean\<close>: the path is read element by element; empty elements and
  \<open>.\<close> are dropped, \<open>..\<close> removes the element before it when there is one that
  is not itself \<open>..\<close>, is dropped at the root of a rooted path and is kept otherwise.
  The result of the empty path is \<open>.\<close>.
\<close>

definition clean_step :: "bool \<Rightarrow> string list \<Rightarrow> string \<Rightarrow> string list" where
  "clean_step rooted out e =
     (if e = [] \<or> e = ''.'' then out
      else if e = ''..'' then
        (if out \<noteq> [] \<and> last out \<noteq> ''..'' then butlast out
         else if rooted then out
         else out @ [''..''])
      else out @ [e])"

definition Clean :: "string \<Rightarrow> string" where
  "Clean path =
     (if path = [] then ''.''
      else
        (let rooted = (hd path = Separator);
             out = foldl (clean_step rooted) [] (strings_Split path Separator)
         in if rooted then Separator # strings_Join out
            else if out = [] then ''.''
            else strings_Join out))"

text \<open>\<open>filepath.Join(a, b)\<close> for the two elements the program always passes.\<close>

definition Join :: "string \<Rightarrow> string \<Rightarrow> string" where
  "Join a b =
     (if a \<noteq> [] then Clean (a @ Separator # b)
      else if b \<noteq> [] then Clean b
      else [])"

section \<open>Errors\<close>

datatype errno = ENOENT | ENOTDIR | EISDIR | EIO | ELOOP | ENXIO

text \<open>
  \<open>PathError op path errno\<close> is \<open>*os.PathError\<close>; \<open>Errorf msg err\<close> is
  \<open>fmt.Errorf(msg + ": %w", err)\<close>, whose wrapped error may be nil (\<open>None\<close>);
  \<open>ErrLongName\<close> and \<open>ErrWriteToDirectory\<close> are the two errors of
  \<open>archive/zip\<close> for a name of more than 65535 bytes and for data written to a
  directory entry; \<open>NilDereference\<close> is the run-time panic of a method call on a nil
  interface.
\<close>

datatype error =
    PathError string string errno
  | Errorf string "error option"
  | ErrInvalid
  | ErrLongName
  | ErrWriteToDirectory
  | SkipDir
  | NilDereference

section \<open>The file system\<close>

text \<open>
  A tree of directories, regular files, symbolic links (each with the path it holds)
  and sockets (the special file that \<open>open\<close> refuses with \<open>ENXIO\<close>).  Named pipes
  and devices are left out: what opening and reading one gives depends on other
  processes and on the device.  A regular file holds bytes, or a ZIP archive described
  by its entries (name and data, in the order written) and by whether its central
  directory has been written.
\<close>

datatype content = Bytes string | Archive "(string \<times> string) list" bool

type_synonym FileMode = "32 word"

datatype node =
    Regular content FileMode
  | Directory "(string \<times> node) list"
  | Symlink string
  | Socket

datatype op = OpLstat | OpReadDir | OpOpen | OpRead | OpWrite

text \<open>
  The log of handle operations: a file opened under a descriptor and a name, a file
  closed, an archive writer created (its number, and the descriptor of the file it
  writes to), an archive writer closed.
\<close>

datatype event = Opened nat string | Closed nat | WriterOpened nat "nat option" | WriterClosed nat

record time_Time =
  year :: int
  month :: nat
  day :: nat
  hour :: nat
  minute :: nat
  second :: nat

text \<open>
  The world the program runs in: the tree and the working directory (as the list of
  its elements from the root, none of them a symbolic link), the process's umask, the
  clock, the device errors to inject (by operation and file name), the byte image of an
  archive, whether the buffer of an archive writer is passed on to the file by the time
  the archive has the given entries, which of the two encoders of \<open>encoding/json\<close>
  the library has (the original one, or the one built on \<open>json/v2\<close>), and the log of
  handle operations performed so far.
\<close>

record world =
  root :: node
  cwd :: "string list"
  umask :: FileMode
  clock :: time_Time
  faults :: "op \<Rightarrow> string \<Rightarrow> bool"
  zipfmt :: "(string \<times> string) list \<Rightarrow> bool \<Rightarrow> string"
  zipflush :: "(string \<times> string) list \<Rightarrow> bool"
  jsonv2 :: bool
  events :: "event list"

text \<open>An open file (\<open>*os.File\<close>): descriptor, name it was opened under, location.\<close>

datatype osfile = OsFile nat string "string list"

fun fd_of :: "osfile \<Rightarrow> nat" where
  "fd_of (OsFile fd name loc) = fd"

fun lookup :: "node \<Rightarrow> string list \<Rightarrow> node option"
  and lookup_in :: "(string \<times> node) list \<Rightarrow> string \<Rightarrow> string list \<Rightarrow> node option" where
  "lookup n [] = Some n"
| "lookup (Regular c m) (e # es) = None"
| "lookup (Directory ents) (e # es) = lookup_in ents e es"
| "lookup (Symlink target) (e # es) = None"
| "lookup Socket (e # es) = None"
| "lookup_in [] e es = None"
| "lookup_in ((k, n) # ents) e es = (if k = e then lookup n es else lookup_in ents e es)"

fun put :: "node \<Rightarrow> string list \<Rightarrow> node \<Rightarrow> node"
  and put_in :: "(string \<times> node) list \<Rightarrow> string \<Rightarrow> string list \<Rightarrow> node \<Rightarrow> (string \<times> node) list" where
  "put n [] new = new"
| "put (Regular c m) (e # es) new = Regular c m"
| "put (Directory ents) (e # es) new = Directory (put_in ents e es new)"
| "put (Symlink target) (e # es) new = Symlink target"
| "put Socket (e # es) new = Socket"
| "put_in [] e es new = (if es = [] then [(e, new)] else [])"
| "put_in ((k, n) # ents) e es new =
     (if k = e then (k, put n es new) # ents else (k, n) # put_in ents e es new)"

text \<open>
  Path resolution as the kernel does it: element by element from the root or from the
  working directory; every element is looked up in a directory that must exist.  An
  element that names a symbolic link is replaced by the elements of the path the link
  holds, read from the root or from the directory of the link; the last element of the
  path is replaced only when \<open>follow\<close> is set.  After \<open>MAXSYMLINKS\<close> links the
  resolution gives up with \<open>ELOOP\<close>; \<open>links\<close> is the number of links that may yet
  be followed.
\<close>

definition MAXSYMLINKS :: nat where
  "MAXSYMLINKS = 40"

function namei :: "node \<Rightarrow> nat \<Rightarrow> bool \<Rightarrow> string list \<Rightarrow> string list \<Rightarrow> errno + string list" where
  "namei r links follow cur [] = Inr cur"
| "namei r links follow cur (e # es) =
     (case lookup r cur of
        None \<Rightarrow> Inl ENOENT
      | Some (Directory ents) \<Rightarrow>
          if e = [] \<or> e = ''.'' then namei r links follow cur es
          else if e = ''..'' then namei r links follow (butlast cur) es
          else
            (case lookup r (cur @ [e]) of
               Some (Symlink target) \<Rightarrow>
                 if es = [] \<and> \<not> follow then Inr (cur @ [e])
                 else if links = 0 then Inl ELOOP
                 else if target = [] then Inl ENOENT
                 else namei r (links - 1) follow (if hd target = Separator then [] else cur)
                        (strings_Split target Separator @ es)
             | _ \<Rightarrow> namei r links follow (cur @ [e]) es)
      | Some _ \<Rightarrow> Inl ENOTDIR)"
  by pat_completeness auto
termination
  by (relation "measures [\<lambda>(r, links, follow, cur, es). links, \<lambda>(r, links, follow, cur, es). length es]")
     auto

text \<open>
  \<open>resolve\<close> is the resolution of \<open>open\<close> and \<open>stat\<close>, which follows a link in
  the last element; \<open>lresolve\<close> is the one of \<open>lstat\<close>, which does not.
\<close>

definition resolve :: "world \<Rightarrow> string \<Rightarrow> errno + string list" where
  "resolve w p =
     (if p = [] then Inl ENOENT
      else namei (root w) MAXSYMLINKS True (if hd p = Separator then [] else cwd w)
             (strings_Split p Separator))"

definition lresolve :: "world \<Rightarrow> string \<Rightarrow> errno + string list" where
  "lresolve w p =
     (if p = [] then Inl ENOENT
      else namei (root w) MAXSYMLINKS False (if hd p = Separator then [] else cwd w)
             (strings_Split p Separator))"

definition next_fd :: "world \<Rightarrow> nat" where
  "next_fd w = length (filter (\<lambda>e. case e of Opened _ _ \<Rightarrow> True | _ \<Rightarrow> False) (events w))"

text \<open>
  \<open>os.OpenFile(name, flag, perm)\<close>, returning the file and the error, one of them
  nil.  \<open>creat\<close> stands for the flags \<open>O_CREATE|O_TRUNC\<close> with write access: a
  missing file is created with \<open>perm\<close> less the umask, an existing one is emptied and
  keeps its mode.  Without it the file is opened for reading and must exist.  A link in
  the last element of the name is followed, so the resolved location holds no link.
\<close>

definition os_OpenFile :: "string \<Rightarrow> bool \<Rightarrow> FileMode \<Rightarrow> world \<Rightarrow> (osfile option \<times> error option) \<times> world" where
  "os_OpenFile name creat perm w =
     (if faults w OpOpen name then ((None, Some (PathError ''open'' name EIO)), w)
      else case resolve w name of
        Inl e \<Rightarrow> ((None, Some (PathError ''open'' name e)), w)
      | Inr loc \<Rightarrow>
          (let opened = w\<lparr>events := events w @ [Opened (next_fd w) name]\<rparr>;
               file = OsFile (next_fd w) name loc
           in case lookup (root w) loc of
                None \<Rightarrow>
                  if creat
                  then ((Some file, None),
                        opened\<lparr>root := put (root w) loc (Regular (Bytes []) (perm AND NOT (umask w)))\<rparr>)
                  else ((None, Some (PathError ''open'' name ENOENT)), w)
              | Some (Directory ents) \<Rightarrow>
                  if creat then ((None, Some (PathError ''open'' name EISDIR)), w)
                  else ((Some file, None), opened)
              | Some (Regular c m) \<Rightarrow>
                  if creat
                  then ((Some file, None), opened\<lparr>root := put (root w) loc (Regular (Bytes []) m)\<rparr>)
                  else ((Some file, None), opened)
              | Some (Symlink target) \<Rightarrow> ((None, Some (PathError ''open'' name ELOOP)), w)
              | Some Socket \<Rightarrow> ((None, Some (PathError ''open'' name ENXIO)), w)))"

definition os_Open :: "string \<Rightarrow> world \<Rightarrow> (osfile option \<times> error option) \<times> world" where
  "os_Open name w = os_OpenFile name False 0 w"

text \<open>\<open>os.Create\<close> asks for mode 0666, which is 438.\<close>

definition os_Create :: "string \<Rightarrow> world \<Rightarrow> (osfile option \<times> error option) \<times> world" where
  "os_Create name w = os_OpenFile name True 438 w"

text \<open>\<open>file.Close()\<close>; on a nil file it returns \<open>os.ErrInvalid\<close> and does nothing.\<close>

fun file_Close :: "osfile option \<Rightarrow> world \<Rightarrow> error option \<times> world" where
  "file_Close None w = (Some ErrInvalid, w)"
| "file_Close (Some (OsFile fd name loc)) w = (None, w\<lparr>events := events w @ [Closed fd]\<rparr>)"

definition bytes_of :: "world \<Rightarrow> content \<Rightarrow> string" where
  "bytes_of w c = (case c of Bytes s \<Rightarrow> s | Archive es fin \<Rightarrow> zipfmt w es fin)"

text \<open>Reading an open file to its end; a nil file gives \<open>os.ErrInvalid\<close>.\<close>

fun file_ReadAll :: "osfile option \<Rightarrow> world \<Rightarrow> error + string" where
  "file_ReadAll None w = Inl ErrInvalid"
| "file_ReadAll (Some (OsFile fd name loc)) w =
     (if faults w OpRead name then Inl (PathError ''read'' name EIO)
      else case lookup (root w) loc of
        None \<Rightarrow> Inl (PathError ''read'' name ENOENT)
      | Some (Directory ents) \<Rightarrow> Inl (PathError ''read'' name EISDIR)
      | Some (Regular c m) \<Rightarrow> Inr (bytes_of w c)
      | Some _ \<Rightarrow> Inl (PathError ''read'' name EIO))"

text \<open>\<open>file.Write(data)\<close> on a file opened for writing; the bytes go to its end.\<close>

fun file_Write :: "osfile option \<Rightarrow> string \<Rightarrow> world \<Rightarrow> error option \<times> world" where
  "file_Write None data w = (Some ErrInvalid, w)"
| "file_Write (Some (OsFile fd name loc)) data w =
     (if faults w OpWrite name then (Some (PathError ''write'' name EIO), w)
      else case lookup (root w) loc of
        None \<Rightarrow> (Some (PathError ''write'' name ENOENT), w)
      | Some (Directory ents) \<Rightarrow> (Some (PathError ''write'' name EISDIR), w)
      | Some (Regular c m) \<Rightarrow>
          (None, w\<lparr>root := put (root w) loc (Regular (Bytes (bytes_of w c @ data)) m)\<rparr>)
      | Some _ \<Rightarrow> (Some (PathError ''write'' name EIO), w))"

text \<open>\<open>ioutil.ReadFile\<close> and \<open>ioutil.WriteFile\<close>: open, transfer, close.\<close>

definition ioutil_ReadFile :: "string \<Rightarrow> world \<Rightarrow> (error + string) \<times> world" where
  "ioutil_ReadFile filename w =
     (let ((f, err), w1) = os_Open filename w
      in case err of
           Some e \<Rightarrow> (Inl e, w1)
         | None \<Rightarrow> (file_ReadAll f w1, snd (file_Close f w1)))"

definition ioutil_WriteFile :: "string \<Rightarrow> string \<Rightarrow> FileMode \<Rightarrow> world \<Rightarrow> error option \<times> world" where
  "ioutil_WriteFile filename data perm w =
     (let ((f, err), w1) = os_OpenFile filename True perm w
      in if err \<noteq> None then (err, w1)
         else (let (err, w2) = file_Write f data w1;
                   (err1, w3) = file_Close f w2
               in (if err = None then err1 else err, w3)))"

section \<open>Walking a tree\<close>

record FileInfo =
  Name :: string
  IsDir :: bool

text \<open>The name \<open>os.Lstat\<close> reports: the last element of the path as it is spelled.\<close>

definition basename :: "string \<Rightarrow> string" where
  "basename name =
     (case name of
        [] \<Rightarrow> []
      | c # cs \<Rightarrow>
          (let stripped = c # rev (dropWhile (\<lambda>x. x = Separator) (rev cs))
           in rev (takeWhile (\<lambda>x. x \<noteq> Separator) (rev (butlast stripped))) @ [last stripped]))"

text \<open>\<open>IsDir\<close> of what \<open>os.Lstat\<close> reports: a link is not a directory, whatever it
  leads to.\<close>

definition is_dir :: "node \<Rightarrow> bool" where
  "is_dir n = (case n of Directory ents \<Rightarrow> True | _ \<Rightarrow> False)"

definition os_Lstat :: "string \<Rightarrow> world \<Rightarrow> error + node" where
  "os_Lstat name w =
     (if faults w OpLstat name then Inl (PathError ''lstat'' name EIO)
      else case lresolve w name of
        Inl e \<Rightarrow> Inl (PathError ''lstat'' name e)
      | Inr loc \<Rightarrow>
          (case lookup (root w) loc of
             None \<Rightarrow> Inl (PathError ''lstat'' name ENOENT)
           | Some n \<Rightarrow> Inr n))"

text \<open>\<open>readDirNames\<close>: the names in a directory, sorted; none when the read fails.\<close>

definition readDirNames :: "world \<Rightarrow> string \<Rightarrow> (string \<times> node) list \<Rightarrow> string list \<times> error option" where
  "readDirNames w dirname ents =
     (if faults w OpReadDir dirname then ([], Some (PathError ''open'' dirname EIO))
      else (sort (map fst ents), None))"

text \<open>
  \<open>lstat\<close> of a name just read from a directory: the entry of that name in the
  directory.  That is what the joined path leads to while the tree does not change and
  the root of the walk has no \<open>..\<close> element: the join takes \<open>x/..\<close> out of the path
  by name, while the kernel steps back from where \<open>x\<close> leads, which is another place
  when \<open>x\<close> is a symbolic link.
\<close>

definition lstat_entry :: "world \<Rightarrow> string \<Rightarrow> (string \<times> node) list \<Rightarrow> string \<Rightarrow> error + node" where
  "lstat_entry w filename ents name =
     (if faults w OpLstat filename then Inl (PathError ''lstat'' filename EIO)
      else case map_of ents name of
        None \<Rightarrow> Inl (PathError ''lstat'' filename ENOENT)
      | Some n \<Rightarrow> Inr n)"

type_synonym 's WalkFunc = "string \<Rightarrow> FileInfo option \<Rightarrow> error option \<Rightarrow> 's \<Rightarrow> error option \<times> 's"

text \<open>
  \<open>filepath.walk\<close> and its loop over the names of a directory.  The state \<open>'s\<close> is
  what the callback's closure captures and updates.
\<close>

function walk :: "world \<Rightarrow> 's WalkFunc \<Rightarrow> string \<Rightarrow> string \<Rightarrow> node \<Rightarrow> 's \<Rightarrow> error option \<times> 's"
  and walk_names :: "world \<Rightarrow> 's WalkFunc \<Rightarrow> string \<Rightarrow> (string \<times> node) list \<Rightarrow> string list \<Rightarrow> 's \<Rightarrow> error option \<times> 's" where
  "walk w walkFn path nm (Regular c m) s = walkFn path (Some \<lparr>Name = nm, IsDir = False\<rparr>) None s"
| "walk w walkFn path nm (Symlink target) s = walkFn path (Some \<lparr>Name = nm, IsDir = False\<rparr>) None s"
| "walk w walkFn path nm Socket s = walkFn path (Some \<lparr>Name = nm, IsDir = False\<rparr>) None s"
| "walk w walkFn path nm (Directory ents) s =
     (let (names, err) = readDirNames w path ents;
          (err1, s1) = walkFn path (Some \<lparr>Name = nm, IsDir = True\<rparr>) err s
      in if err \<noteq> None \<or> err1 \<noteq> None then (err1, s1)
         else walk_names w walkFn path ents names s1)"
| "walk_names w walkFn path ents [] s = (None, s)"
| "walk_names w walkFn path ents (name # names) s =
     (let filename = Join path name
      in case lstat_entry w filename ents name of
           Inl err \<Rightarrow>
             (let (err1, s1) = walkFn filename None (Some err) s
              in if err1 \<noteq> None \<and> err1 \<noteq> Some SkipDir then (err1, s1)
                 else walk_names w walkFn path ents names s1)
         | Inr child \<Rightarrow>
             (let (err1, s1) = walk w walkFn filename name child s
              in if err1 \<noteq> None \<and> (\<not> is_dir child \<or> err1 \<noteq> Some SkipDir) then (err1, s1)
                 else walk_names w walkFn path ents names s1))"
  by pat_completeness auto

lemma size_map_of:
  "map_of ents name = Some (n::node) \<Longrightarrow> size n < Suc (size_list (size_prod (\<lambda>_. 0) size) ents)"
  by (induction ents) (auto split: if_splits)

lemma lstat_entry_size:
  "lstat_entry w filename ents name = Inr child \<Longrightarrow> size child < size (Directory ents)"
  by (auto simp: lstat_entry_def split: if_splits option.splits dest: size_map_of)

termination walk
  apply (relation "measures
          [\<lambda>x. case x of
                 Inl (w, fn, path, nm, n, s) \<Rightarrow> 2 * size n
               | Inr (w, fn, path, ents, names, s) \<Rightarrow> 2 * size (Directory ents) - 1,
           \<lambda>x. case x of
                 Inl (w, fn, path, nm, n, s) \<Rightarrow> 0
               | Inr (w, fn, path, ents, names, s) \<Rightarrow> length names]")
      apply (auto dest!: lstat_entry_size)
  done

text \<open>\<open>filepath.Walk(root, walkFn)\<close>.\<close>

definition Walk :: "world \<Rightarrow> string \<Rightarrow> 's WalkFunc \<Rightarrow> 's \<Rightarrow> error option \<times> 's" where
  "Walk w root_path walkFn s =
     (let (err, s1) =
            (case os_Lstat root_path w of
               Inl e \<Rightarrow> walkFn root_path None (Some e) s
             | Inr n \<Rightarrow> walk w walkFn root_path (basename root_path) n s)
      in if err = Some SkipDir then (None, s1) else (err, s1))"

section \<open>Writing a ZIP archive\<close>

text \<open>
  \<open>*zip.Writer\<close>: its number, the file it writes to, and the entries of its
  directory.  The writer keeps what it writes in a buffer, which it passes on to the
  file when it is full and when the writer is closed; \<open>zipflush\<close> of the world says
  whether that happens in the call that brings the archive to the given entries.  Only
  a call that passes bytes on can meet a write error.  What has reached the file is kept
  there as an \<open>Archive\<close>.
\<close>

datatype zipwriter = ZipWriter nat "osfile option" "(string \<times> string) list"

definition next_writer :: "world \<Rightarrow> nat" where
  "next_writer w = length (filter (\<lambda>e. case e of WriterOpened _ _ \<Rightarrow> True | _ \<Rightarrow> False) (events w))"

definition zip_NewWriter :: "osfile option \<Rightarrow> world \<Rightarrow> zipwriter \<times> world" where
  "zip_NewWriter file w =
     (ZipWriter (next_writer w) file [],
      w\<lparr>events := events w @ [WriterOpened (next_writer w) (map_option fd_of file)]\<rparr>)"

fun zip_store :: "osfile option \<Rightarrow> (string \<times> string) list \<Rightarrow> bool \<Rightarrow> world \<Rightarrow> error option \<times> world" where
  "zip_store None dir fin w = (Some ErrInvalid, w)"
| "zip_store (Some (OsFile fd name loc)) dir fin w =
     (if faults w OpWrite name then (Some (PathError ''write'' name EIO), w)
      else case lookup (root w) loc of
        None \<Rightarrow> (Some (PathError ''write'' name ENOENT), w)
      | Some (Directory ents) \<Rightarrow> (Some (PathError ''write'' name EISDIR), w)
      | Some (Regular c m) \<Rightarrow> (None, w\<lparr>root := put (root w) loc (Regular (Archive dir fin) m)\<rparr>)
      | Some _ \<Rightarrow> (Some (PathError ''write'' name EIO), w))"

text \<open>
  \<open>zipWriter.Create(name)\<close> adds the entry to the directory and writes its header,
  which fails for a name longer than 65535 bytes.  A name that ends in a slash makes a
  directory entry, which takes no data.
\<close>

definition directory_entry :: "string \<Rightarrow> bool" where
  "directory_entry name = (name \<noteq> [] \<and> last name = Separator)"

fun zip_Create :: "zipwriter \<Rightarrow> string \<Rightarrow> world \<Rightarrow> (zipwriter \<times> error option) \<times> world" where
  "zip_Create (ZipWriter k file dir) name w =
     (let dir1 = dir @ [(name, [])]
      in if 65535 < length name then ((ZipWriter k file dir1, Some ErrLongName), w)
         else if zipflush w dir1
         then (let (err, w1) = zip_store file dir1 False w
               in ((ZipWriter k file dir1, err), w1))
         else ((ZipWriter k file dir1, None), w))"

text \<open>
  \<open>io.Copy(zippedFileWriter, fileToZip)\<close>: the file's bytes become the data of the
  entry created last; bytes written to a directory entry are an error.  The source is
  read to its end as it is when the copy starts, which is what the copy gives for a
  source that does not change meanwhile.  (A copy of the very file the archive is
  written to reads what it writes and need not end; the statements about the contents
  of the archive assume that no file read is that file.)
\<close>

fun io_Copy :: "zipwriter \<Rightarrow> osfile option \<Rightarrow> world \<Rightarrow> (zipwriter \<times> error option) \<times> world" where
  "io_Copy (ZipWriter k file dir) src w =
     (case file_ReadAll src w of
        Inl e \<Rightarrow> ((ZipWriter k file dir, Some e), w)
      | Inr data \<Rightarrow>
          if dir \<noteq> [] \<and> directory_entry (fst (last dir)) \<and> data \<noteq> []
          then ((ZipWriter k file dir, Some ErrWriteToDirectory), w)
          else
            (let dir1 = (if dir = [] then [] else butlast dir @ [(fst (last dir), data)])
             in if zipflush w dir1
                then (let (err, w1) = zip_store file dir1 False w
                      in ((ZipWriter k file dir1, err), w1))
                else ((ZipWriter k file dir1, None), w)))"

text \<open>\<open>zipWriter.Close()\<close> writes the central directory and passes everything on to
  the file.\<close>

fun zip_Close :: "zipwriter \<Rightarrow> world \<Rightarrow> error option \<times> world" where
  "zip_Close (ZipWriter k file dir) w =
     zip_store file dir True (w\<lparr>events := events w @ [WriterClosed k]\<rparr>)"

declare zip_store.simps [simp del] zip_Create.simps [simp del] io_Copy.simps [simp del]
  zip_Close.simps [simp del]

section \<open>The line scanner\<close>

text \<open>
  \<open>bufio.NewScanner(file)\<close>, one \<open>Scan()\<close>, then \<open>Text()\<close>: the bytes before the
  first newline, without one trailing carriage return.  The text is empty when the read
  fails, when there is no input, and when the line does not
  fit the scanner's buffer of \<open>MaxScanTokenSize\<close> bytes.
\<close>

definition MaxScanTokenSize :: nat where
  "MaxScanTokenSize = 64 * 1024"

definition dropCR :: "string \<Rightarrow> string" where
  "dropCR d = (if d \<noteq> [] \<and> last d = CHR 0x0D then butlast d else d)"

definition first_line :: "string \<Rightarrow> string" where
  "first_line d = takeWhile (\<lambda>c. c \<noteq> CHR 0x0A) d"

definition Scan_Text :: "osfile option \<Rightarrow> world \<Rightarrow> string" where
  "Scan_Text file w =
     (case file_ReadAll file w of
        Inl e \<Rightarrow> []
      | Inr d \<Rightarrow> if length (first_line d) < MaxScanTokenSize then dropCR (first_line d) else [])"

section \<open>Formatting the time\<close>

definition digit :: "nat \<Rightarrow> char" where
  "digit n = char_of (48 + n)"

function decimal :: "nat \<Rightarrow> string" where
  "decimal n = (if n < 10 then [digit n] else decimal (n div 10) @ [digit (n mod 10)])"
  by pat_completeness auto
termination
  by (relation "measure id") auto

text \<open>\<open>appendInt(b, x, width)\<close> of package \<open>time\<close>: a sign, zero padding, the digits.\<close>

definition appendInt :: "int \<Rightarrow> nat \<Rightarrow> string" where
  "appendInt x width =
     (let ds = decimal (nat \<bar>x\<bar>)
      in (if x < 0 then ''-'' else []) @ replicate (width - length ds) (CHR ''0'') @ ds)"

text \<open>
  \<open>t.Format("2006-01-02T15:04:05Z")\<close>: the layout is the year in four digits, the
  month, day, hour, minute and second in two, and the other characters as they are.
\<close>

definition getInfoFileFormattedTime :: "time_Time \<Rightarrow> string" where
  "getInfoFileFormattedTime currentTime =
     appendInt (year currentTime) 4 @ ''-'' @ appendInt (int (month currentTime)) 2 @ ''-''
     @ appendInt (int (day currentTime)) 2 @ ''T'' @ appendInt (int (hour currentTime)) 2 @ '':''
     @ appendInt (int (minute currentTime)) 2 @ '':'' @ appendInt (int (second currentTime)) 2 @ ''Z''"

section \<open>Encoding JSON\<close>

definition dquote :: char where "dquote = CHR 0x22"
definition backslash :: char where "backslash = CHR 0x5C"

definition RuneError :: nat where "RuneError = 0xFFFD"

text \<open>
  \<open>utf8.DecodeRuneInString\<close>: the code point and the number of bytes it takes; an
  invalid or short encoding gives \<open>(RuneError, 1)\<close>.  The masks and shifts of the
  source are written as remainders and products.
\<close>

definition DecodeRune :: "string \<Rightarrow> nat \<times> nat" where
  "DecodeRune s =
     (case s of
        [] \<Rightarrow> (RuneError, 0)
      | c0 # t \<Rightarrow>
          (let s0 = (of_char c0 :: nat) in
           if s0 < 0x80 then (s0, 1)
           else if s0 < 0xC2 \<or> 0xF4 < s0 then (RuneError, 1)
           else
             (let sz = (if s0 < 0xE0 then 2 else if s0 < 0xF0 then 3 else 4 :: nat);
                  lo = (if s0 = 0xE0 then 0xA0 else if s0 = 0xF0 then 0x90 else 0x80 :: nat);
                  hi = (if s0 = 0xED then 0x9F else if s0 = 0xF4 then 0x8F else 0xBF :: nat)
              in if length s < sz then (RuneError, 1)
                 else
                   (let s1 = (of_char (s ! 1) :: nat) in
                    if s1 < lo \<or> hi < s1 then (RuneError, 1)
                    else if sz \<le> 2 then ((s0 mod 32) * 64 + s1 mod 64, 2)
                    else
                      (let s2 = (of_char (s ! 2) :: nat) in
                       if s2 < 0x80 \<or> 0xBF < s2 then (RuneError, 1)
                       else if sz \<le> 3 then ((s0 mod 16) * 4096 + (s1 mod 64) * 64 + s2 mod 64, 3)
                       else
                         (let s3 = (of_char (s ! 3) :: nat) in
                          if s3 < 0x80 \<or> 0xBF < s3 then (RuneError, 1)
                          else ((s0 mod 8) * 262144 + (s1 mod 64) * 4096 + (s2 mod 64) * 64
                                + s3 mod 64, 4)))))))"

definition hex :: "nat \<Rightarrow> char" where
  "hex n = ''0123456789abcdef'' ! n"

text \<open>\<open>htmlSafeSet\<close> on the bytes below 0x80.\<close>

definition htmlSafe :: "char \<Rightarrow> bool" where
  "htmlSafe b = (0x20 \<le> (of_char b :: nat) \<and> b \<noteq> dquote \<and> b \<noteq> backslash
                 \<and> b \<noteq> CHR ''&'' \<and> b \<noteq> CHR ''<'' \<and> b \<noteq> CHR ''>'')"

definition escape_byte :: "char \<Rightarrow> string" where
  "escape_byte b =
     (if b = backslash \<or> b = dquote then [backslash, b]
      else if b = CHR 0x08 then [backslash, CHR ''b'']
      else if b = CHR 0x0C then [backslash, CHR ''f'']
      else if b = CHR 0x0A then [backslash, CHR ''n'']
      else if b = CHR 0x0D then [backslash, CHR ''r'']
      else if b = CHR 0x09 then [backslash, CHR ''t'']
      else [backslash, CHR ''u'', CHR ''0'', CHR ''0'',
            hex ((of_char b :: nat) div 16), hex ((of_char b :: nat) mod 16)])"

text \<open>
  What the encoder writes for a byte that is not part of valid UTF-8: the original
  encoder the six characters of the escape \<open>\ufffd\<close>, the encoder built on
  \<open>json/v2\<close> the three bytes of U+FFFD.
\<close>

definition replacement :: "bool \<Rightarrow> string" where
  "replacement v2 = (if v2 then [CHR 0xEF, CHR 0xBF, CHR 0xBD] else backslash # ''ufffd'')"

text \<open>The loop of \<open>appendString\<close> of \<open>encoding/json\<close>, with HTML escaping on.\<close>

function escape_string :: "bool \<Rightarrow> string \<Rightarrow> string" where
  "escape_string v2 [] = []"
| "escape_string v2 (b # rest) =
     (if (of_char b :: nat) < 0x80
      then (if htmlSafe b then [b] else escape_byte b) @ escape_string v2 rest
      else
        (let (c, size) = DecodeRune (take 4 (b # rest))
         in if c = RuneError \<and> size = 1
            then replacement v2 @ escape_string v2 rest
            else if c = 0x2028 \<or> c = 0x2029
            then backslash # ''u202'' @ [hex (c mod 16)] @ escape_string v2 (drop (size - 1) rest)
            else take size (b # rest) @ escape_string v2 (drop (size - 1) rest)))"
  by pat_completeness auto
termination
  by (relation "measure (\<lambda>(v2, s). length s)") auto

definition appendString :: "bool \<Rightarrow> string \<Rightarrow> string" where
  "appendString v2 src = dquote # escape_string v2 src @ [dquote]"

record infoFile =
  Version :: string
  Time :: string

text \<open>\<open>json.Marshal\<close> of an \<open>infoFile\<close>; it has no error for a struct of strings.\<close>

definition json_Marshal :: "bool \<Rightarrow> infoFile \<Rightarrow> string \<times> error option" where
  "json_Marshal v2 info =
     (''{'' @ appendString v2 ''Version'' @ '':'' @ appendString v2 (Version info) @ '',''
      @ appendString v2 ''Time'' @ '':'' @ appendString v2 (Time info) @ ''}'', None)"

section \<open>Reading the info file back\<close>

text \<open>
  What the specification says of the info file, as a reader: the time pattern
  \<open>YYYY-MM-DDTHH:MM:SSZ\<close>, valid UTF-8 (\<open>utf8.ValidString\<close>), a JSON string
  literal with its escapes, and the flat object \<open>{"Version":"...","Time":"..."}\<close> with
  nothing before, between or after.
\<close>

definition is_digit :: "char \<Rightarrow> bool" where
  "is_digit c = (48 \<le> (of_char c :: nat) \<and> (of_char c :: nat) \<le> 57)"

definition info_time_pattern :: "string \<Rightarrow> bool" where
  "info_time_pattern t =
     (length t = 20
      \<and> list_all (\<lambda>i. is_digit (t ! i)) [0, 1, 2, 3, 5, 6, 8, 9, 11, 12, 14, 15, 17, 18]
      \<and> t ! 4 = CHR ''-'' \<and> t ! 7 = CHR ''-'' \<and> t ! 10 = CHR ''T''
      \<and> t ! 13 = CHR '':'' \<and> t ! 16 = CHR '':'' \<and> t ! 19 = CHR ''Z'')"

text \<open>The fields a \<open>time.Time\<close> can have, with a year of four digits.\<close>

definition four_digit_time :: "time_Time \<Rightarrow> bool" where
  "four_digit_time t =
     (0 \<le> year t \<and> year t \<le> 9999 \<and> 1 \<le> month t \<and> month t \<le> 12 \<and> 1 \<le> day t \<and> day t \<le> 31
      \<and> hour t < 24 \<and> minute t < 60 \<and> second t < 60)"

function valid_utf8 :: "string \<Rightarrow> bool" where
  "valid_utf8 [] = True"
| "valid_utf8 (b # rest) =
     (if (of_char b :: nat) < 0x80 then valid_utf8 rest
      else
        (let (c, size) = DecodeRune (take 4 (b # rest))
         in \<not> (c = RuneError \<and> size = 1) \<and> valid_utf8 (drop (size - 1) rest)))"
  by pat_completeness auto
termination
  by (relation "measure length") auto

text \<open>
  The string a JSON text made by the encoder stands for: the string encoded, with
  each byte that is not part of valid UTF-8 replaced by U+FFFD.
\<close>

function decoded :: "string \<Rightarrow> string" where
  "decoded [] = []"
| "decoded (b # rest) =
     (if (of_char b :: nat) < 0x80 then b # decoded rest
      else
        (let (c, size) = DecodeRune (take 4 (b # rest))
         in if c = RuneError \<and> size = 1
            then [CHR 0xEF, CHR 0xBF, CHR 0xBD] @ decoded rest
            else take size (b # rest) @ decoded (drop (size - 1) rest)))"
  by pat_completeness auto
termination
  by (relation "measure length") auto

definition hexval :: "char \<Rightarrow> nat option" where
  "hexval c =
     (let n = (of_char c :: nat)
      in if 48 \<le> n \<and> n \<le> 57 then Some (n - 48)
         else if 97 \<le> n \<and> n \<le> 102 then Some (n - 87)
         else if 65 \<le> n \<and> n \<le> 70 then Some (n - 55)
         else None)"

text \<open>UTF-8 of a code point of the basic plane that is not a surrogate.\<close>

definition utf8_encode :: "nat \<Rightarrow> string option" where
  "utf8_encode cp =
     (if cp < 0x80 then Some [char_of cp]
      else if cp < 0x800 then Some [char_of (0xC0 + cp div 64), char_of (0x80 + cp mod 64)]
      else if 0xD800 \<le> cp \<and> cp < 0xE000 then None
      else if cp < 0x10000
      then Some [char_of (0xE0 + cp div 4096), char_of (0x80 + cp div 64 mod 64), char_of (0x80 + cp mod 64)]
      else None)"

definition unescape_simple :: "char \<Rightarrow> char option" where
  "unescape_simple e =
     (if e = dquote \<or> e = backslash \<or> e = CHR ''/'' then Some e
      else if e = CHR ''b'' then Some (CHR 0x08)
      else if e = CHR ''f'' then Some (CHR 0x0C)
      else if e = CHR ''n'' then Some (CHR 0x0A)
      else if e = CHR ''r'' then Some (CHR 0x0D)
      else if e = CHR ''t'' then Some (CHR 0x09)
      else None)"

text \<open>The inside of a string literal up to its closing quote: the bytes it stands for
  and what follows the quote.\<close>

fun unescape :: "string \<Rightarrow> (string \<times> string) option" where
  "unescape [] = None"
| "unescape (c # cs) =
     (if c = dquote then Some ([], cs)
      else if c = backslash then
        (case cs of
           [] \<Rightarrow> None
         | e # r \<Rightarrow>
             if e = CHR ''u'' then
               (case r of
                  h1 # h2 # h3 # h4 # r' \<Rightarrow>
                    (case (hexval h1, hexval h2, hexval h3, hexval h4) of
                       (Some a, Some b, Some c', Some d) \<Rightarrow>
                         (case (utf8_encode (((a * 16 + b) * 16 + c') * 16 + d), unescape r') of
                            (Some bytes, Some (s, t)) \<Rightarrow> Some (bytes @ s, t)
                          | _ \<Rightarrow> None)
                     | _ \<Rightarrow> None)
                | _ \<Rightarrow> None)
             else
               (case (unescape_simple e, unescape r) of
                  (Some b, Some (s, t)) \<Rightarrow> Some (b # s, t)
                | _ \<Rightarrow> None))
      else if (of_char c :: nat) < 0x20 then None
      else (case unescape cs of Some (s, t) \<Rightarrow> Some (c # s, t) | None \<Rightarrow> None))"

definition read_string :: "string \<Rightarrow> (string \<times> string) option" where
  "read_string s = (case s of [] \<Rightarrow> None | c # cs \<Rightarrow> if c = dquote then unescape cs else None)"

definition expect :: "string \<Rightarrow> string \<Rightarrow> string option" where
  "expect lit s = (if take (length lit) s = lit then Some (drop (length lit) s) else None)"

text \<open>The two members of \<open>{"Version":"...","Time":"..."}\<close>, when the text is just that.\<close>

definition read_info :: "string \<Rightarrow> (string \<times> string) option" where
  "read_info s =
     (case expect (''{'' @ [dquote] @ ''Version'' @ [dquote] @ '':'') s of
        None \<Rightarrow> None
      | Some s1 \<Rightarrow>
          (case read_string s1 of
             None \<Rightarrow> None
           | Some (v, s2) \<Rightarrow>
               (case expect ('','' @ [dquote] @ ''Time'' @ [dquote] @ '':'') s2 of
                  None \<Rightarrow> None
                | Some s3 \<Rightarrow>
                    (case read_string s3 of
                       None \<Rightarrow> None
                     | Some (t, s4) \<Rightarrow> if s4 = ''}'' then Some (v, t) else None))))"

section \<open>pack.go\<close>

definition getModuleName :: "string \<Rightarrow> world \<Rightarrow> (error + string) \<times> world" where
  "getModuleName path w =
     (let moduleFilePath = Join path ''go.mod'';
          ((file, err), w1) = os_Open moduleFilePath w;
          w2 = snd (file_Close file w1)
      in if err \<noteq> None then (Inl (Errorf ''unable to open module file'' err), w2)
         else
           (let moduleHeaderParts = strings_Split (Scan_Text file w1) (CHR '' '')
            in if length moduleHeaderParts \<le> 1
               then (Inl (Errorf ''unable to parse module header'' err), w2)
               else (Inr (moduleHeaderParts ! 1), w2)))"

text \<open>The callback of \<open>getFilePathsToArchive\<close>; its state is the slice \<open>files\<close>.\<close>

definition archiveWalkFn :: "string list WalkFunc" where
  "archiveWalkFn currentFilePath fileInfo err files =
     (if err \<noteq> None then (Some (Errorf ''unable to walk path'' err), files)
      else case fileInfo of
        None \<Rightarrow> (Some NilDereference, files)
      | Some info \<Rightarrow>
          if IsDir info \<and> Name info = ''.git'' then (Some SkipDir, files)
          else if IsDir info then (None, files)
          else (None, files @ [currentFilePath]))"

definition getFilePathsToArchive :: "string \<Rightarrow> world \<Rightarrow> error + string list" where
  "getFilePathsToArchive path w =
     (let (err, files) = Walk w path archiveWalkFn []
      in case err of Some e \<Rightarrow> Inl e | None \<Rightarrow> Inr files)"

definition getZipPath :: "string \<Rightarrow> string \<Rightarrow> string \<Rightarrow> string \<Rightarrow> string" where
  "getZipPath path currentFilePath moduleName version =
     (let filePath = strings_TrimPrefix currentFilePath path
      in Join (moduleName @ ''@'' @ version) filePath)"

text \<open>
  The loop of \<open>createZipArchive\<close>.  \<open>deferred\<close> are the source files whose
  \<open>Close\<close> has been deferred, the latest first.
\<close>

fun archive_files :: "string \<Rightarrow> string \<Rightarrow> string \<Rightarrow> string list \<Rightarrow> zipwriter \<Rightarrow> osfile option list
    \<Rightarrow> world \<Rightarrow> (error option \<times> zipwriter \<times> osfile option list) \<times> world" where
  "archive_files path moduleName version [] zipWriter deferred w = ((None, zipWriter, deferred), w)"
| "archive_files path moduleName version (filePath # rest) zipWriter deferred w =
     (let ((fileToZip, err), w1) = os_Open filePath w
      in if err \<noteq> None then ((Some (Errorf ''unable to open file'' err), zipWriter, deferred), w1)
         else
           (let deferred1 = fileToZip # deferred;
                zippedFilePath = getZipPath path filePath moduleName version;
                ((zipWriter1, err), w2) = zip_Create zipWriter zippedFilePath w1
            in if err \<noteq> None
               then ((Some (Errorf ''unable to add file to zip archive'' err), zipWriter1, deferred1), w2)
               else
                 (let ((zipWriter2, err), w3) = io_Copy zipWriter1 fileToZip w2
                  in if err \<noteq> None
                     then ((Some (Errorf ''unable to copy file contents to zip archive'' err),
                            zipWriter2, deferred1), w3)
                     else archive_files path moduleName version rest zipWriter2 deferred1 w3)))"

text \<open>Running deferred \<open>Close\<close> calls, the one deferred last first.\<close>

fun close_deferred :: "osfile option list \<Rightarrow> world \<Rightarrow> world" where
  "close_deferred [] w = w"
| "close_deferred (f # fs) w = close_deferred fs (snd (file_Close f w))"



definition createZipArchive :: "string \<Rightarrow> string \<Rightarrow> string \<Rightarrow> string \<Rightarrow> world \<Rightarrow> error option \<times> world" where
  "createZipArchive path moduleName version outputDirectory w =
     (case getFilePathsToArchive path w of
        Inl err \<Rightarrow> (Some (Errorf ''unable to get files to archive'' (Some err)), w)
      | Inr filePathsToArchive \<Rightarrow>
          (let outputPath = Join outputDirectory ''source.zip'';
               ((zipFile, err), w1) = os_Create outputPath w
           in if err \<noteq> None
              then (Some (Errorf ''unable to create zip file'' err), snd (file_Close zipFile w1))
              else
                (let (zipWriter, w2) = zip_NewWriter zipFile w1;
                     ((result, zipWriter1, deferred), w3) =
                        archive_files path moduleName version filePathsToArchive zipWriter [] w2;
                     w4 = close_deferred deferred w3;
                     w5 = snd (zip_Close zipWriter1 w4);
                     w6 = snd (file_Close zipFile w5)
                 in (result, w6))))"

definition createInfoFile :: "string \<Rightarrow> string \<Rightarrow> world \<Rightarrow> error option \<times> world" where
  "createInfoFile version outputDirectory w =
     (let infoFilePath = Join outputDirectory (version @ ''.info'');
          ((file, err), w1) = os_Create infoFilePath w
      in if err \<noteq> None then (Some (Errorf ''could not create info file'' err), w1)
         else
           (let currentTime = getInfoFileFormattedTime (clock w1);
                info = \<lparr>Version = version, Time = currentTime\<rparr>;
                (infoBytes, err) = json_Marshal (jsonv2 w1) info
            in if err \<noteq> None
               then (Some (Errorf ''could not marshal info file'' err), snd (file_Close file w1))
               else
                 (let (err, w2) = file_Write file infoBytes w1
                  in if err \<noteq> None
                     then (Some (Errorf ''could not write info file'' err), snd (file_Close file w2))
                     else (None, snd (file_Close file w2)))))"

text \<open>The mode 0644 of the copy is 420.\<close>

definition copyModuleFile :: "string \<Rightarrow> string \<Rightarrow> world \<Rightarrow> error option \<times> world" where
  "copyModuleFile path outputDirectory w =
     (if outputDirectory = ''.'' then (None, w)
      else
        (let sourcePath = Join path ''go.mod'';
             destinationPath = Join outputDirectory ''go.mod''
         in if sourcePath = destinationPath then (None, w)
            else
              (case ioutil_ReadFile sourcePath w of
                 (Inl err, w1) \<Rightarrow> (Some (Errorf ''unable to read module file'' (Some err)), w1)
               | (Inr moduleContents, w1) \<Rightarrow>
                   (let (err, w2) = ioutil_WriteFile destinationPath moduleContents 420 w1
                    in if err \<noteq> None then (Some (Errorf ''unable to write module file'' err), w2)
                       else (None, w2)))))"

definition Module :: "string \<Rightarrow> string \<Rightarrow> string \<Rightarrow> world \<Rightarrow> error option \<times> world" where
  "Module path version outputDirectory w =
     (case getModuleName path w of
        (Inl err, w1) \<Rightarrow> (Some (Errorf ''could not get module name'' (Some err)), w1)
      | (Inr moduleName, w1) \<Rightarrow>
          (let (err, w2) = createZipArchive path moduleName version outputDirectory w1
           in if err \<noteq> None then (Some (Errorf ''could not create zip archive'' err), w2)
              else
                (let (err, w3) = createInfoFile version outputDirectory w2
                 in if err \<noteq> None then (Some (Errorf ''could not create info file'' err), w3)
                    else
                      (let (err, w4) = copyModuleFile path outputDirectory w3
                       in if err \<noteq> None then (Some (Errorf ''could not copy module file'' err), w4)
                          else (None, w4)))))"

text \<open>Whether a path has two separators in a row.\<close>

fun doubled_separator :: "string \<Rightarrow> bool" where
  "doubled_separator (a # b # cs) = ((a = Separator \<and> b = Separator) \<or> doubled_separator (b # cs))"
| "doubled_separator cs = False"

text \<open>A name a directory entry can have.\<close>

definition proper_name :: "string \<Rightarrow> bool" where
  "proper_name n = (n \<noteq> [] \<and> n \<noteq> ''.'' \<and> n \<noteq> ''..'' \<and> Separator \<notin> set n)"

fun wf_node :: "node \<Rightarrow> bool" and wf_entries :: "(string \<times> node) list \<Rightarrow> bool" where
  "wf_node (Regular c m) = True"
| "wf_node (Symlink target) = True"
| "wf_node Socket = True"
| "wf_node (Directory ents) = wf_entries ents"
| "wf_entries [] = True"
| "wf_entries ((n, child) # ents) = (proper_name n \<and> wf_node child \<and> wf_entries ents)"

text \<open>
  The shape of the elements \<open>Clean\<close> keeps: some \<open>..\<close> (none in a rooted path)
  and then names.
\<close>

definition normal :: "bool \<Rightarrow> string list \<Rightarrow> bool" where
  "normal r out = (\<exists>k names. out = replicate k ''..'' @ names \<and> (\<forall>n\<in>set names. proper_name n)
                    \<and> (r \<longrightarrow> k = 0))"

text \<open>
  What the walk is to collect: every entry of the tree that is not a directory (a
  regular file, a symbolic link or a socket), by the names that lead to it from the root
  of the walk, depth first with the names of a directory in sorted order; of these, the
  ones with no directory named \<open>.git\<close> on the way.
\<close>

function files_under :: "node \<Rightarrow> string list list"
  and files_among :: "(string \<times> node) list \<Rightarrow> string list \<Rightarrow> string list list" where
  "files_under (Regular c m) = [[]]"
| "files_under (Symlink target) = [[]]"
| "files_under Socket = [[]]"
| "files_under (Directory ents) = files_among ents (sort (map fst ents))"
| "files_among ents [] = []"
| "files_among ents (n # ns) =
     (case map_of ents n of
        None \<Rightarrow> []
      | Some child \<Rightarrow> map ((#) n) (files_under child)) @ files_among ents ns"
  by pat_completeness auto
termination
  apply (relation "measures
          [\<lambda>x. case x of Inl n \<Rightarrow> 2 * size n | Inr (ents, names) \<Rightarrow> 2 * size (Directory ents) - 1,
           \<lambda>x. case x of Inl n \<Rightarrow> 0 | Inr (ents, names) \<Rightarrow> length names]")
     apply (auto dest!: size_map_of)
  done

definition outside_git :: "string list \<Rightarrow> bool" where
  "outside_git cs = (''.git'' \<notin> set (butlast cs))"

definition expected_files :: "string \<Rightarrow> node \<Rightarrow> string list list" where
  "expected_files path n =
     (if is_dir n \<and> basename path = ''.git'' then [] else filter outside_git (files_under n))"


text \<open>No device error is injected into the walk.\<close>

definition no_walk_faults :: "world \<Rightarrow> bool" where
  "no_walk_faults w = (\<forall>name. \<not> faults w OpLstat name \<and> \<not> faults w OpReadDir name)"

text \<open>
  The events a call has added to the log, and whether an event comes before another
  in a log.
\<close>

definition events_since :: "world \<Rightarrow> world \<Rightarrow> event list" where
  "events_since w w' = drop (length (events w)) (events w')"


text \<open>
  The mode of the file at a location after it has been opened with \<open>O_CREATE\<close> and
  \<open>perm\<close>: an existing file keeps its mode, a new one gets \<open>perm\<close> less the umask.
\<close>

definition mode_after :: "world \<Rightarrow> string list \<Rightarrow> FileMode \<Rightarrow> FileMode" where
  "mode_after w loc perm =
     (case lookup (root w) loc of Some (Regular c m) \<Rightarrow> m | _ \<Rightarrow> perm AND NOT (umask w))"

text \<open>A path element: not empty and without a separator.\<close>

definition element :: "string \<Rightarrow> bool" where
  "element e = (e \<noteq> [] \<and> Separator \<notin> set e)"

section \<open>Example worlds\<close>

text \<open>
  A small tree: \<open>/work/mod\<close> is a module whose manifest starts with
  \<open>module example.com/foo\<close>; \<open>/work/src\<close> holds just \<open>a.txt\<close>, \<open>sub/b.txt\<close>
  and \<open>.git/config\<close>; the manifests of \<open>/work/one\<close>, \<open>/work/tab\<close> and
  \<open>/work/empty\<close> have a first line of one word, a tab instead of the space, and no
  bytes at all; \<open>/work/out\<close> is an empty directory.
\<close>

definition example_tree :: node where
  "example_tree =
     Directory [(''work'', Directory
       [(''mod'', Directory
          [(''go.mod'', Regular (Bytes (''module example.com/foo'' @ [CHR 0x0A] @ ''go 1.13'' @ [CHR 0x0A])) 420),
           (''sub'', Directory [(''b.txt'', Regular (Bytes ''bee'') 420)]),
           (''a.txt'', Regular (Bytes ''ay'') 420),
           (''.gitignore'', Regular (Bytes ''*.zip'') 420),
           (''.git'', Directory [(''config'', Regular (Bytes ''[core]'') 420)])]),
        (''src'', Directory
          [(''sub'', Directory [(''b.txt'', Regular (Bytes ''bee'') 420)]),
           (''a.txt'', Regular (Bytes ''ay'') 420),
           (''.git'', Directory [(''config'', Regular (Bytes ''[core]'') 420)])]),
        (''one'', Directory [(''go.mod'', Regular (Bytes (''module'' @ [CHR 0x0A])) 420)]),
        (''tab'', Directory
          [(''go.mod'', Regular (Bytes (''module'' @ [CHR 0x09] @ ''example.com/foo'' @ [CHR 0x0A])) 420)]),
        (''empty'', Directory [(''go.mod'', Regular (Bytes []) 420)]),
        (''out'', Directory [])])]"

definition example_world :: world where
  "example_world =
     \<lparr>root = example_tree, cwd = [''work''], umask = 18,
      clock = \<lparr>year = 2020, month = 3, day = 7, hour = 9, minute = 5, second = 1\<rparr>,
      faults = (\<lambda>_ _. False), zipfmt = (\<lambda>_ _. []), zipflush = (\<lambda>_. True), jsonv2 = False,
      events = []\<rparr>"

text \<open>The same world with an executable file (mode 0755, which is 493) at \<open>/work/out/go.mod\<close>.\<close>

definition example_world_exec :: world where
  "example_world_exec =
     example_world\<lparr>root := put example_tree [''work'', ''out'', ''go.mod''] (Regular (Bytes ''old'') 493)\<rparr>"

text \<open>The first world with a device error on reading \<open>/work/mod/a.txt\<close>.\<close>

definition example_world_faulty :: world where
  "example_world_faulty =
     example_world\<lparr>faults := (\<lambda>op name. op = OpRead \<and> name = ''/work/mod/a.txt'')\<rparr>"


text \<open>The first world with \<open>/work/mod\<close> as the working directory.\<close>

definition example_world_in_mod :: world where
  "example_world_in_mod = example_world\<lparr>cwd := [''work'', ''mod'']\<rparr>"

text \<open>
  A manifest whose first line has two tokens and is exactly \<open>MaxScanTokenSize\<close> bytes
  long (the word \<open>module\<close>, a space, and 65529 times the letter \<open>x\<close>), and the first
  world with that manifest at \<open>/work/long/go.mod\<close>.
\<close>

definition long_manifest :: string where
  "long_manifest = ''module '' @ replicate 65529 (CHR ''x'') @ [CHR 0x0A]"

definition example_world_long :: world where
  "example_world_long =
     example_world\<lparr>root := put example_tree [''work'', ''long'']
       (Directory [(''go.mod'', Regular (Bytes long_manifest) 420)])\<rparr>"

lemmas eval_simps =
  Separator_def clean_step_def Clean_def Join_def strings_TrimPrefix_def getZipPath_def
  example_tree_def example_world_def resolve_def lresolve_def MAXSYMLINKS_def next_fd_def
  os_OpenFile_def os_Open_def os_Create_def bytes_of_def Let_def

lemmas io_simps = copyModuleFile_def ioutil_ReadFile_def ioutil_WriteFile_def mode_after_def

lemmas zip_simps = zip_store.simps zip_Create.simps io_Copy.simps zip_Close.simps
  createZipArchive_def zip_NewWriter_def next_writer_def events_since_def directory_entry_def

lemmas walk_simps =
  getFilePathsToArchive_def Walk_def os_Lstat_def basename_def readDirNames_def
  lstat_entry_def archiveWalkFn_def is_dir_def

section \<open>Splitting and scanning\<close>

lemma strings_Split_not_Nil: "strings_Split s c \<noteq> []"
  by (induction s) (auto split: list.splits)

lemma strings_Split_no_sep: "t \<in> set (strings_Split s c) \<Longrightarrow> c \<notin> set t"
  by (induction s arbitrary: t) (auto split: list.splits if_splits)

lemma strings_Split_one: "c \<notin> set s \<Longrightarrow> strings_Split s c = [s]"
  by (induction s) (auto split: list.splits)

lemma strings_Split_append:
  "strings_Split (a @ c # b) c = strings_Split a c @ strings_Split b c"
  by (induction a) (auto split: list.splits simp: strings_Split_not_Nil)

lemma length_dropCR: "length d \<le> Suc (length (dropCR d))"
  by (simp add: dropCR_def)

lemma set_dropCR: "set (dropCR d) \<subseteq> set d"
  by (auto simp: dropCR_def dest: in_set_butlastD)

lemma Scan_Text_fits:
  "file_ReadAll f w = Inr d \<Longrightarrow> length (first_line d) < MaxScanTokenSize \<Longrightarrow>
   Scan_Text f w = dropCR (first_line d)"
  by (simp add: Scan_Text_def)

lemma Scan_Text_too_long:
  "file_ReadAll f w = Inr d \<Longrightarrow> \<not> length (first_line d) < MaxScanTokenSize \<Longrightarrow>
   Scan_Text f w = []"
  by (simp add: Scan_Text_def)

section \<open>Cleaned paths\<close>

lemma clean_step_empty [simp]: "clean_step r out [] = out"
  by (simp add: clean_step_def)

lemma Clean_doubled:
  assumes "a \<noteq> []"
  shows "Clean (a @ Separator # Separator # b) = Clean (a @ Separator # b)"
proof -
  have "strings_Split (a @ Separator # Separator # b) Separator =
        strings_Split a Separator @ [] # strings_Split b Separator"
    by (simp add: strings_Split_append)
  moreover have "strings_Split (a @ Separator # b) Separator =
        strings_Split a Separator @ strings_Split b Separator"
    by (simp add: strings_Split_append)
  ultimately show ?thesis using assms
    by (simp add: Clean_def Let_def)
qed

lemma Join_leading_separator: "a \<noteq> [] \<Longrightarrow> Join a (Separator # b) = Join a b"
  by (simp add: Join_def Clean_doubled)

lemma TrimPrefix_append: "strings_TrimPrefix (p @ s) p = s"
  by (simp add: strings_TrimPrefix_def)

lemma clean_step_elements:
  "\<forall>x\<in>set out. element x \<Longrightarrow> Separator \<notin> set e \<Longrightarrow> \<forall>x\<in>set (clean_step r out e). element x"
  by (auto simp: clean_step_def element_def Separator_def dest: in_set_butlastD)

lemma foldl_clean_step_elements:
  "\<forall>x\<in>set out. element x \<Longrightarrow> \<forall>e\<in>set es. Separator \<notin> set e \<Longrightarrow>
   \<forall>x\<in>set (foldl (clean_step r) out es). element x"
proof (induction es arbitrary: out)
  case Nil
  then show ?case by simp
next
  case (Cons e es)
  have "\<forall>x\<in>set (clean_step r out e). element x"
    using Cons.prems by (intro clean_step_elements) auto
  then show ?case using Cons by simp
qed

lemma Clean_out_elements:
  "\<forall>x\<in>set (foldl (clean_step r) [] (strings_Split p Separator)). element x"
  by (rule foldl_clean_step_elements) (auto dest: strings_Split_no_sep)

lemma doubled_separator_Cons:
  "doubled_separator (c # s) = ((c = Separator \<and> s \<noteq> [] \<and> hd s = Separator) \<or> doubled_separator s)"
  by (cases s) auto

lemma doubled_separator_append_element:
  "element e \<Longrightarrow> doubled_separator (e @ s) = doubled_separator (last e # s)"
proof (induction e)
  case Nil
  then show ?case by (simp add: element_def)
next
  case (Cons c e)
  show ?case
  proof (cases "e = []")
    case True
    then show ?thesis by simp
  next
    case False
    then have "element e" using Cons.prems by (auto simp: element_def)
    with Cons.IH have ih: "doubled_separator (e @ s) = doubled_separator (last e # s)" by simp
    have "c \<noteq> Separator" using Cons.prems by (auto simp: element_def)
    then show ?thesis using False ih
      by (simp add: doubled_separator_Cons)
  qed
qed

lemma strings_Join_no_doubled:
  "\<forall>x\<in>set out. element x \<Longrightarrow> \<not> doubled_separator (strings_Join out)
     \<and> (out \<noteq> [] \<longrightarrow> strings_Join out \<noteq> [] \<and> hd (strings_Join out) \<noteq> Separator)"
proof (induction out rule: strings_Join.induct)
  case 1
  then show ?case by simp
next
  case (2 e)
  then have e: "element e" by simp
  have "\<not> doubled_separator (e @ [])"
    unfolding doubled_separator_append_element [OF e] by simp
  then show ?case using e by (cases e) (auto simp: element_def)
next
  case (3 e v va)
  then have e: "element e" and ih: "\<not> doubled_separator (strings_Join (v # va))"
      "strings_Join (v # va) \<noteq> []" "hd (strings_Join (v # va)) \<noteq> Separator"
    by auto
  have "last e \<noteq> Separator" using e by (metis element_def last_in_set)
  then have "\<not> doubled_separator (e @ Separator # strings_Join (v # va))"
    unfolding doubled_separator_append_element [OF e] using ih
    by (simp add: doubled_separator_Cons)
  then show ?case using e by (cases e) (auto simp: element_def)
qed

lemma Clean_no_doubled_separator: "\<not> doubled_separator (Clean p)"
proof (cases "foldl (clean_step True) [] (strings_Split p Separator) = []")
  case True
  then show ?thesis
    using strings_Join_no_doubled [OF Clean_out_elements]
    by (simp add: Clean_def Let_def doubled_separator_Cons)
next
  case False
  then show ?thesis
    using strings_Join_no_doubled [OF Clean_out_elements]
    by (simp add: Clean_def Let_def doubled_separator_Cons)
qed

section \<open>The files the walk collects\<close>

lemma files_among_nonempty: "cs \<in> set (files_among ents names) \<Longrightarrow> cs \<noteq> []"
  by (induction names) (auto split: option.splits)

lemma outside_git_Cons: "cs \<noteq> [] \<Longrightarrow> outside_git (n # cs) = (n \<noteq> ''.git'' \<and> outside_git cs)"
  by (auto simp: outside_git_def)

lemma filter_outside_git_names:
  "\<forall>cs\<in>set xs. cs \<noteq> [] \<Longrightarrow>
   filter outside_git (map ((#) n) xs) =
     (if n = ''.git'' then [] else map ((#) n) (filter outside_git xs))"
  by (induction xs) (auto simp: outside_git_Cons)

lemma listing_child:
  "map (foldl Join path) (filter outside_git (map ((#) name) (files_under child))) =
     (if is_dir child \<and> name = ''.git'' then []
      else map (foldl Join (Join path name)) (filter outside_git (files_under child)))"
proof (cases child)
  case (Directory ents)
  have "\<forall>cs\<in>set (files_under child). cs \<noteq> []"
    using Directory files_among_nonempty by auto
  from filter_outside_git_names [OF this] show ?thesis
    using Directory by (simp add: is_dir_def comp_def)
qed (simp_all add: is_dir_def outside_git_def)

text \<open>
  With the callback of \<open>getFilePathsToArchive\<close> and no injected error, the walk of a
  node appends the joined paths of the files outside \<open>.git\<close>, and skips a directory
  named \<open>.git\<close>.
\<close>

lemma walk_archive:
  "fn = archiveWalkFn \<Longrightarrow> no_walk_faults w \<Longrightarrow>
   walk w fn path nm node s =
     (if is_dir node \<and> nm = ''.git'' then (Some SkipDir, s)
      else (None, s @ map (foldl Join path) (filter outside_git (files_under node))))"
  "fn = archiveWalkFn \<Longrightarrow> no_walk_faults w \<Longrightarrow> set names \<subseteq> fst ` set ents \<Longrightarrow>
   walk_names w fn path ents names s =
     (None, s @ map (foldl Join path) (filter outside_git (files_among ents names)))"
proof (induction w fn path nm node s and w fn path ents names s rule: walk_walk_names.induct)
  case (1 w walkFn path nm c m s)
  then show ?case
    by (simp add: archiveWalkFn_def is_dir_def outside_git_def)
next
  case (2 w walkFn path nm target s)
  then show ?case
    by (simp add: archiveWalkFn_def is_dir_def outside_git_def)
next
  case (3 w walkFn path nm s)
  then show ?case
    by (simp add: archiveWalkFn_def is_dir_def outside_git_def)
next
  case (4 w walkFn path nm ents s)
  show ?case
  proof (cases "nm = ''.git''")
    case True
    then show ?thesis using 4(2,3)
      by (simp add: archiveWalkFn_def is_dir_def readDirNames_def no_walk_faults_def)
  next
    case False
    have "walk_names w walkFn path ents (sort (map fst ents)) s =
       (None, s @ map (foldl Join path) (filter outside_git (files_among ents (sort (map fst ents)))))"
      using 4(2,3) False
      by (intro "4.IH"(1)[where x="(sort (map fst ents), None)" and xb="(None, s)"])
         (auto simp: archiveWalkFn_def readDirNames_def no_walk_faults_def)
    then show ?thesis using 4(2,3) False
      by (simp add: archiveWalkFn_def is_dir_def readDirNames_def no_walk_faults_def)
  qed
next
  case (5 w walkFn path ents s)
  then show ?case by simp
next
  case (6 w walkFn path ents name names s)
  from "6.prems" have fn: "walkFn = archiveWalkFn" and nf: "no_walk_faults w"
    and nm: "name \<in> fst ` set ents" and sub: "set names \<subseteq> fst ` set ents"
    by auto
  from nm obtain child where mo: "map_of ents name = Some child"
    by (metis map_of_eq_None_iff not_Some_eq)
  have ls: "lstat_entry w (Join path name) ents name = Inr child"
    using nf mo by (simp add: lstat_entry_def no_walk_faults_def)
  let ?skip = "is_dir child \<and> name = ''.git''"
  let ?L1 = "map (foldl Join (Join path name)) (filter outside_git (files_under child))"
  let ?y = "if ?skip then s else s @ ?L1"
  have w1: "walk w walkFn (Join path name) name child s =
            (if ?skip then Some SkipDir else None, ?y)"
    using "6.IH"(2) [OF refl ls fn nf] by simp
  have w2: "walk_names w walkFn path ents names ?y =
            (None, ?y @ map (foldl Join path) (filter outside_git (files_among ents names)))"
    by (rule "6.IH"(3) [OF refl ls refl _ _ fn nf sub, where xb = "if ?skip then Some SkipDir else None"])
       (simp_all add: w1)
  have "walk_names w walkFn path ents (name # names) s =
        (None, ?y @ map (foldl Join path) (filter outside_git (files_among ents names)))"
    using ls w1 w2 by (simp add: Let_def)
  also have "?y @ map (foldl Join path) (filter outside_git (files_among ents names)) =
        s @ map (foldl Join path) (filter outside_git (files_among ents (name # names)))"
    using mo listing_child [of path name child] by simp
  finally show ?case .
qed

lemma strings_Join_snoc: "out \<noteq> [] \<Longrightarrow> strings_Join (out @ [n]) = strings_Join out @ Separator # n"
  by (induction out rule: strings_Join.induct) auto

lemma strings_Split_Join:
  "\<forall>x\<in>set out. element x \<Longrightarrow> out \<noteq> [] \<Longrightarrow> strings_Split (strings_Join out) Separator = out"
proof (induction out rule: strings_Join.induct)
  case 1
  then show ?case by simp
next
  case (2 e)
  then show ?case by (simp add: strings_Split_one element_def)
next
  case (3 e v va)
  then have "strings_Split e Separator = [e]"
    by (simp add: strings_Split_one element_def)
  with 3 show ?case
    by (simp add: strings_Split_append)
qed

lemma clean_step_proper: "proper_name n \<Longrightarrow> clean_step r out n = out @ [n]"
  by (simp add: clean_step_def proper_name_def)

lemma foldl_clean_step_proper:
  "\<forall>n\<in>set names. proper_name n \<Longrightarrow> foldl (clean_step r) out names = out @ names"
  by (induction names arbitrary: out) (simp_all add: clean_step_proper)

lemma clean_step_dotdot_replicate:
  "clean_step False (replicate j ''..'') ''..'' = replicate (Suc j) ''..''"
  by (cases j) (simp_all add: clean_step_def replicate_append_same)

lemma foldl_clean_step_dotdots:
  "foldl (clean_step False) (replicate j ''..'') (replicate k ''..'') = replicate (j + k) ''..''"
proof (induction k arbitrary: j)
  case 0
  then show ?case by simp
next
  case (Suc k)
  show ?case
    using Suc [of "Suc j"] by (simp add: clean_step_dotdot_replicate del: replicate_Suc replicate.simps)
       (simp add: clean_step_dotdot_replicate)
qed

lemma normal_fixed: "normal r out \<Longrightarrow> foldl (clean_step r) [] out = out"
proof -
  assume "normal r out"
  then obtain k names where o: "out = replicate k ''..'' @ names" "\<forall>n\<in>set names. proper_name n"
    "r \<longrightarrow> k = 0"
    unfolding normal_def by blast
  show ?thesis
  proof (cases r)
    case True
    with o show ?thesis by (simp add: foldl_clean_step_proper)
  next
    case False
    have "foldl (clean_step False) [] (replicate k ''..'') = replicate k ''..''"
      using foldl_clean_step_dotdots [of 0 k] by simp
    with o False show ?thesis by (simp add: foldl_clean_step_proper)
  qed
qed

lemma normal_Nil: "normal r []"
  by (auto simp: normal_def)

lemma clean_step_normal:
  assumes "normal r out" and "Separator \<notin> set e"
  shows "normal r (clean_step r out e)"
proof -
  from assms(1) obtain k names where o: "out = replicate k ''..'' @ names"
    "\<forall>n\<in>set names. proper_name n" "r \<longrightarrow> k = 0"
    unfolding normal_def by blast
  consider (skip) "e = [] \<or> e = ''.''" | (up) "e = ''..''" | (name) "proper_name e"
    using assms(2) by (auto simp: proper_name_def)
  then show ?thesis
  proof cases
    case skip
    then show ?thesis using assms(1) by (auto simp: clean_step_def)
  next
    case name
    then have "clean_step r out e = replicate k ''..'' @ (names @ [e])"
      using o by (simp add: clean_step_proper)
    then show ?thesis using o name unfolding normal_def
      by (intro exI [of _ k] exI [of _ "names @ [e]"]) auto
  next
    case up
    show ?thesis
    proof (cases "names = []")
      case False
      then have "last out = last names" "out \<noteq> []" using o by auto
      moreover have "last names \<noteq> ''..''"
        using False o(2) last_in_set [of names] by (auto simp: proper_name_def)
      ultimately have "clean_step r out e = replicate k ''..'' @ butlast names"
        using up o False by (simp add: clean_step_def butlast_append)
      then show ?thesis using o unfolding normal_def
        by (intro exI [of _ k] exI [of _ "butlast names"]) (auto dest: in_set_butlastD)
    next
      case True
      show ?thesis
      proof (cases r)
        case True
        with \<open>names = []\<close> o up have "clean_step r out e = []"
          by (simp add: clean_step_def)
        then show ?thesis by (simp add: normal_Nil)
      next
        case False
        with \<open>names = []\<close> o up have "clean_step r out e = replicate (Suc k) ''..''"
          using clean_step_dotdot_replicate [of k] by simp
        then show ?thesis using False unfolding normal_def
          by (intro exI [of _ "Suc k"] exI [of _ "[]"]) auto
      qed
    qed
  qed
qed

lemma foldl_clean_step_normal:
  "normal r out \<Longrightarrow> \<forall>e\<in>set es. Separator \<notin> set e \<Longrightarrow> normal r (foldl (clean_step r) out es)"
  by (induction es arbitrary: out) (auto intro: clean_step_normal)

lemma Clean_out_normal: "normal r (foldl (clean_step r) [] (strings_Split p Separator))"
  by (rule foldl_clean_step_normal [OF normal_Nil]) (auto dest: strings_Split_no_sep)


lemma Clean_not_Nil: "Clean p \<noteq> []"
  using strings_Join_no_doubled [OF Clean_out_elements, of False p]
  by (auto simp: Clean_def Let_def)

lemma Clean_Nil: "Clean [] = ''.''"
  by (simp add: Clean_def)

lemma Clean_dot: "Clean ''.'' = ''.''"
  by (simp add: Clean_def Separator_def clean_step_def)

text \<open>The result of \<open>Clean\<close> in terms of the elements kept.\<close>

lemma Clean_eq:
  "p \<noteq> [] \<Longrightarrow>
   Clean p = (if hd p = Separator
              then Separator # strings_Join (foldl (clean_step True) [] (strings_Split p Separator))
              else if foldl (clean_step False) [] (strings_Split p Separator) = [] then ''.''
              else strings_Join (foldl (clean_step False) [] (strings_Split p Separator)))"
  by (simp add: Clean_def Let_def)

lemma element_dotdot: "element ''..''"
  by (simp add: element_def Separator_def)

lemma proper_name_element: "proper_name n \<Longrightarrow> element n"
  by (simp add: proper_name_def element_def)

lemma normal_elements:
  assumes "normal r out"
  shows "\<forall>x\<in>set out. element x"
proof
  fix x
  assume x: "x \<in> set out"
  from assms obtain k names where o: "out = replicate k ''..'' @ names"
    "\<forall>n\<in>set names. proper_name n"
    unfolding normal_def by blast
  from x o(1) have "x = ''..'' \<or> x \<in> set names" by auto
  then show "element x"
    using o(2) element_dotdot proper_name_element by blast
qed

lemma Clean_of_render_rooted:
  assumes "normal True out"
  shows "Clean (Separator # strings_Join out) = Separator # strings_Join out"
proof -
  have el: "\<forall>x\<in>set out. element x"
    using assms by (rule normal_elements)
  have "foldl (clean_step True) [] (strings_Split (Separator # strings_Join out) Separator) = out"
  proof (cases "out = []")
    case True
    then show ?thesis by simp
  next
    case False
    then show ?thesis
      using strings_Split_Join [OF el False] normal_fixed [OF assms] by simp
  qed
  then show ?thesis by (simp add: Clean_eq)
qed

lemma Clean_of_render_relative:
  assumes "normal False out" and "out \<noteq> []"
  shows "Clean (strings_Join out) = strings_Join out"
proof -
  have el: "\<forall>x\<in>set out. element x"
    using assms(1) by (rule normal_elements)
  from strings_Join_no_doubled [OF el] assms(2)
  have ne: "strings_Join out \<noteq> []" "hd (strings_Join out) \<noteq> Separator" by auto
  have "foldl (clean_step False) [] (strings_Split (strings_Join out) Separator) = out"
    using strings_Split_Join [OF el assms(2)] normal_fixed [OF assms(1)] by simp
  then show ?thesis using ne assms(2) by (simp add: Clean_eq)
qed

lemma Clean_idem: "Clean (Clean p) = Clean p"
proof (cases "p = []")
  case True
  then show ?thesis by (simp add: Clean_Nil Clean_dot)
next
  case False
  show ?thesis
  proof (cases "hd p = Separator")
    case True
    then show ?thesis
      using False Clean_of_render_rooted [OF Clean_out_normal [of True p]]
      by (simp add: Clean_eq)
  next
    case rel: False
    show ?thesis
    proof (cases "foldl (clean_step False) [] (strings_Split p Separator) = []")
      case True
      then show ?thesis using False rel by (simp add: Clean_eq Clean_dot)
    next
      case ne: False
      then show ?thesis
        using False rel Clean_of_render_relative [OF Clean_out_normal [of False p] ne]
        by (simp add: Clean_eq)
    qed
  qed
qed

lemma Join_proper:
  assumes "Clean p = p" and "p \<noteq> ''.''" and "proper_name n"
  shows "Join p n = (if p = [Separator] then p @ n else p @ Separator # n)"
proof -
  have pne: "p \<noteq> []" using assms(1) Clean_not_Nil [of p] by auto
  let ?r = "hd p = Separator"
  let ?out = "foldl (clean_step ?r) [] (strings_Split p Separator)"
  have nsep: "Separator \<notin> set n" using assms(3) by (simp add: proper_name_def)
  have split: "strings_Split (p @ Separator # n) Separator = strings_Split p Separator @ [n]"
    using nsep by (simp add: strings_Split_append strings_Split_one)
  have out': "foldl (clean_step ?r) [] (strings_Split (p @ Separator # n) Separator) = ?out @ [n]"
    unfolding split using assms(3) by (simp add: clean_step_proper)
  have el: "\<forall>x\<in>set ?out. element x" by (rule Clean_out_elements)
  have J: "Join p n = Clean (p @ Separator # n)" using pne by (simp add: Join_def)
  show ?thesis
  proof (cases ?r)
    case True
    then have c: "Clean (p @ Separator # n) = Separator # strings_Join (?out @ [n])"
      using pne out' by (simp add: Clean_eq)
    from True have p: "p = Separator # strings_Join ?out"
      using assms(1) pne by (simp add: Clean_eq)
    show ?thesis
    proof (cases "?out = []")
      case e: True
      then have "p = [Separator]" using p by simp
      moreover have "Clean (p @ Separator # n) = Separator # n"
        using c e by simp
      ultimately show ?thesis using J by simp
    next
      case ne: False
      then have "strings_Join ?out \<noteq> []" using strings_Join_no_doubled [OF el] by simp
      then have "p \<noteq> [Separator]" using p by auto
      moreover have "Clean (p @ Separator # n) = p @ Separator # n"
        using c p ne by (simp add: strings_Join_snoc)
      ultimately show ?thesis using J by simp
    qed
  next
    case False
    have ne: "?out \<noteq> []"
      using assms(1,2) pne False by (auto simp: Clean_eq split: if_splits)
    then have p: "p = strings_Join ?out"
      using assms(1) pne False by (simp add: Clean_eq)
    have "Clean (p @ Separator # n) = strings_Join (?out @ [n])"
      using pne out' False by (simp add: Clean_eq)
    then have "Clean (p @ Separator # n) = p @ Separator # n"
      using p ne by (simp add: strings_Join_snoc)
    moreover have "p \<noteq> [Separator]" using False by auto
    ultimately show ?thesis using J by simp
  qed
qed

lemma Join_cleaned: "a \<noteq> [] \<or> b \<noteq> [] \<Longrightarrow> Clean (Join a b) = Join a b"
  by (auto simp: Join_def Clean_idem)

lemma foldl_Join_proper:
  "Clean p = p \<Longrightarrow> p \<noteq> ''.'' \<Longrightarrow> \<forall>c\<in>set cs. proper_name c \<Longrightarrow> cs \<noteq> [] \<Longrightarrow>
   foldl Join p cs = (if p = [Separator] then p else p @ [Separator]) @ strings_Join cs"
proof (induction cs arbitrary: p)
  case Nil
  then show ?case by simp
next
  case (Cons c cs)
  let ?base = "if p = [Separator] then p else p @ [Separator]"
  let ?q = "Join p c"
  have c: "proper_name c" using Cons.prems by simp
  have q: "?q = ?base @ c"
    using Join_proper [OF Cons.prems(1,2) c] by simp
  have pne: "p \<noteq> []" using Cons.prems(1) Clean_not_Nil [of p] by auto
  have cne: "c \<noteq> []" using c by (simp add: proper_name_def)
  have qc: "Clean ?q = ?q" using pne by (simp add: Join_cleaned)
  have q2: "2 \<le> length ?q" using q pne cne
    by (cases c; cases p) (auto split: if_splits)
  then have qd: "?q \<noteq> ''.''" and qs: "?q \<noteq> [Separator]" by auto
  show ?case
  proof (cases "cs = []")
    case True
    then show ?thesis using q by simp
  next
    case False
    then obtain d ds where cs: "cs = d # ds" by (cases cs) auto
    have "foldl Join ?q cs = ?q @ [Separator] @ strings_Join cs"
      using Cons.IH [OF qc qd _ False] Cons.prems(3) qs by simp
    then show ?thesis using q cs by simp
  qed
qed

lemma getZipPath_walked:
  assumes "Clean p = p" and "p \<noteq> ''.''" and "\<forall>c\<in>set cs. proper_name c"
  shows "getZipPath p (foldl Join p cs) m v = Join (m @ ''@'' @ v) (strings_Join cs)"
proof (cases "cs = []")
  case True
  then show ?thesis
    using TrimPrefix_append [of p "[]"] by (simp add: getZipPath_def)
next
  case False
  note f = foldl_Join_proper [OF assms False]
  show ?thesis
  proof (cases "p = [Separator]")
    case True
    then have "foldl Join p cs = p @ strings_Join cs" using f by simp
    then show ?thesis by (simp add: getZipPath_def TrimPrefix_append)
  next
    case False
    then have "foldl Join p cs = p @ Separator # strings_Join cs" using f by simp
    then show ?thesis
      by (simp add: getZipPath_def TrimPrefix_append Join_leading_separator)
  qed
qed


section \<open>Paths inside the archive\<close>

text \<open>
  C4 (as amended).  For a module path \<open>path\<close> and a file path that is \<open>path\<close>, a
  separator and a rest, the prefix strip leaves the separator and the rest; the join
  then cleans the path, so the leading separator is not kept: the entry path is the
  join of \<open>moduleName@version\<close> and the rest, and no entry path has two separators in a
  row.
\<close>

theorem getZipPath_separator_cleaned:
  "strings_TrimPrefix (path @ Separator # rest) path = Separator # rest
   \<and> getZipPath path (path @ Separator # rest) moduleName version =
       Join (moduleName @ ''@'' @ version) rest
   \<and> \<not> doubled_separator (getZipPath path currentFilePath moduleName version)"
proof (intro conjI)
  show "strings_TrimPrefix (path @ Separator # rest) path = Separator # rest"
    by (rule TrimPrefix_append)
  show "getZipPath path (path @ Separator # rest) moduleName version =
        Join (moduleName @ ''@'' @ version) rest"
    by (simp add: getZipPath_def TrimPrefix_append Join_leading_separator)
  show "\<not> doubled_separator (getZipPath path currentFilePath moduleName version)"
    by (simp add: getZipPath_def Join_def Clean_no_doubled_separator)
qed

theorem getZipPath_separator_cleaned_witness:
  "getZipPath ''/work/src'' ''/work/src/a.txt'' ''example.com/foo'' ''v1.0.0'' =
     Join ''example.com/foo@v1.0.0'' ''a.txt''
   \<and> Join ''example.com/foo@v1.0.0'' ''a.txt'' = ''example.com/foo@v1.0.0/a.txt''"
  using getZipPath_separator_cleaned
    [of "''/work/src''" "''a.txt''" "''example.com/foo''" "''v1.0.0''"]
  by (simp add: eval_simps)

text \<open>
  The claim as it was stated fails for the walk of \<open>/work/src\<close>: the strip of
  \<open>/work/src/a.txt\<close> does keep the separator, but the entry path is not the prefix, a
  separator and the stripped path.
\<close>

theorem getZipPath_artifact_counterexample:
  "getFilePathsToArchive ''/work/src'' example_world =
     Inr [''/work/src/a.txt'', ''/work/src/sub/b.txt'']
   \<and> strings_TrimPrefix ''/work/src/a.txt'' ''/work/src'' = ''/a.txt''
   \<and> getZipPath ''/work/src'' ''/work/src/a.txt'' ''example.com/foo'' ''v1.0.0'' =
       ''example.com/foo@v1.0.0/a.txt''
   \<and> getZipPath ''/work/src'' ''/work/src/a.txt'' ''example.com/foo'' ''v1.0.0'' \<noteq>
       ''example.com/foo@v1.0.0'' @ ''/'' @ ''/a.txt''"
  by (simp add: eval_simps walk_simps)

section \<open>Module-name resolution\<close>

lemma getModuleName_result:
  "fst (getModuleName path w) =
     (let r = os_Open (Join path ''go.mod'') w;
          parts = strings_Split (Scan_Text (fst (fst r)) (snd r)) (CHR '' '')
      in if snd (fst r) \<noteq> None then Inl (Errorf ''unable to open module file'' (snd (fst r)))
         else if length parts \<le> 1 then Inl (Errorf ''unable to parse module header'' None)
         else Inr (parts ! 1))"
  by (simp add: getModuleName_def Let_def case_prod_beta)

lemma first_line_long_manifest:
  "first_line long_manifest = ''module '' @ replicate 65529 (CHR ''x'')"
  by (simp add: long_manifest_def first_line_def takeWhile_append takeWhile_replicate
     )

text \<open>
  C1 (as amended).  The name is the token at index 1 of the manifest's first line split
  on single spaces, as long as the line fits the scanner's buffer: when the manifest
  opens and reads as \<open>d\<close>, and its first line is shorter than \<open>MaxScanTokenSize\<close> and
  has at least two tokens, the second token is returned; the line
  \<open>module example.com/foo\<close> gives \<open>example.com/foo\<close>; every first line of fewer than
  two tokens gives the parse error; and so does every first line of
  \<open>MaxScanTokenSize\<close> bytes or more, whatever its tokens.
\<close>

theorem getModuleName_first_line:
  assumes "fst (os_Open (Join path ''go.mod'') w) = (Some f, None)"
      and "file_ReadAll (Some f) (snd (os_Open (Join path ''go.mod'') w)) = Inr d"
  shows "(length (first_line d) < MaxScanTokenSize \<and>
          2 \<le> length (strings_Split (dropCR (first_line d)) (CHR '' '')) \<longrightarrow>
            fst (getModuleName path w) = Inr (strings_Split (dropCR (first_line d)) (CHR '' '') ! 1))
       \<and> (dropCR (first_line d) = ''module example.com/foo'' \<longrightarrow>
            fst (getModuleName path w) = Inr ''example.com/foo'')
       \<and> (length (strings_Split (dropCR (first_line d)) (CHR '' '')) < 2 \<longrightarrow>
            fst (getModuleName path w) = Inl (Errorf ''unable to parse module header'' None))
       \<and> (MaxScanTokenSize \<le> length (first_line d) \<longrightarrow>
            fst (getModuleName path w) = Inl (Errorf ''unable to parse module header'' None))"
proof (intro conjI impI)
  note res = getModuleName_result [of path w]
  {
    assume "length (first_line d) < MaxScanTokenSize \<and>
            2 \<le> length (strings_Split (dropCR (first_line d)) (CHR '' ''))"
    then show "fst (getModuleName path w) =
               Inr (strings_Split (dropCR (first_line d)) (CHR '' '') ! 1)"
      using res assms(1) Scan_Text_fits [OF assms(2)] by (simp add: Let_def)
  }
  {
    assume a: "dropCR (first_line d) = ''module example.com/foo''"
    have "length (first_line d) \<le> Suc (length (dropCR (first_line d)))"
      by (rule length_dropCR)
    then have "length (first_line d) < MaxScanTokenSize"
      by (simp add: a MaxScanTokenSize_def)
    then show "fst (getModuleName path w) = Inr ''example.com/foo''"
      using res assms(1) Scan_Text_fits [OF assms(2)] a by (simp add: Let_def)
  }
  {
    assume a: "length (strings_Split (dropCR (first_line d)) (CHR '' '')) < 2"
    show "fst (getModuleName path w) = Inl (Errorf ''unable to parse module header'' None)"
    proof (cases "length (first_line d) < MaxScanTokenSize")
      case True
      then show ?thesis
        using res assms(1) Scan_Text_fits [OF assms(2)] a by (simp add: Let_def)
    next
      case False
      then show ?thesis
        using res assms(1) Scan_Text_too_long [OF assms(2)] by (simp add: Let_def)
    qed
  }
  {
    assume "MaxScanTokenSize \<le> length (first_line d)"
    then have "\<not> length (first_line d) < MaxScanTokenSize"
      by simp
    then show "fst (getModuleName path w) = Inl (Errorf ''unable to parse module header'' None)"
      using res assms(1) Scan_Text_too_long [OF assms(2)] by (simp add: Let_def)
  }
qed

theorem getModuleName_first_line_witness:
  "fst (getModuleName ''/work/mod'' example_world) = Inr ''example.com/foo''
   \<and> fst (getModuleName ''/work/one'' example_world) =
       Inl (Errorf ''unable to parse module header'' None)
   \<and> fst (getModuleName ''/work/tab'' example_world) =
       Inl (Errorf ''unable to parse module header'' None)"
proof (intro conjI)
  have o1: "fst (os_Open (Join ''/work/mod'' ''go.mod'') example_world) =
            (Some (OsFile 0 ''/work/mod/go.mod'' [''work'', ''mod'', ''go.mod'']), None)"
    by (simp add: eval_simps)
  have r1: "file_ReadAll (Some (OsFile 0 ''/work/mod/go.mod'' [''work'', ''mod'', ''go.mod'']))
              (snd (os_Open (Join ''/work/mod'' ''go.mod'') example_world)) =
            Inr (''module example.com/foo'' @ [CHR 0x0A] @ ''go 1.13'' @ [CHR 0x0A])"
    by (simp add: eval_simps)
  show "fst (getModuleName ''/work/mod'' example_world) = Inr ''example.com/foo''"
    using getModuleName_first_line [OF o1 r1] by (simp add: first_line_def dropCR_def)
  have o2: "fst (os_Open (Join ''/work/one'' ''go.mod'') example_world) =
            (Some (OsFile 0 ''/work/one/go.mod'' [''work'', ''one'', ''go.mod'']), None)"
    by (simp add: eval_simps)
  have r2: "file_ReadAll (Some (OsFile 0 ''/work/one/go.mod'' [''work'', ''one'', ''go.mod'']))
              (snd (os_Open (Join ''/work/one'' ''go.mod'') example_world)) =
            Inr (''module'' @ [CHR 0x0A])"
    by (simp add: eval_simps)
  show "fst (getModuleName ''/work/one'' example_world) =
        Inl (Errorf ''unable to parse module header'' None)"
    using getModuleName_first_line [OF o2 r2] by (simp add: first_line_def dropCR_def)
  have o3: "fst (os_Open (Join ''/work/tab'' ''go.mod'') example_world) =
            (Some (OsFile 0 ''/work/tab/go.mod'' [''work'', ''tab'', ''go.mod'']), None)"
    by (simp add: eval_simps)
  have r3: "file_ReadAll (Some (OsFile 0 ''/work/tab/go.mod'' [''work'', ''tab'', ''go.mod'']))
              (snd (os_Open (Join ''/work/tab'' ''go.mod'') example_world)) =
            Inr (''module'' @ [CHR 0x09] @ ''example.com/foo'' @ [CHR 0x0A])"
    by (simp add: eval_simps)
  show "fst (getModuleName ''/work/tab'' example_world) =
        Inl (Errorf ''unable to parse module header'' None)"
    using getModuleName_first_line [OF o3 r3] by (simp add: first_line_def dropCR_def)
qed

text \<open>
  The claim as it was stated fails for a first line that does not fit the scanner's
  buffer: the first line of \<open>/work/long/go.mod\<close> is 65536 bytes long and splits into
  the two tokens \<open>module\<close> and \<open>xx...x\<close>, yet the scanner gives no text and the
  resolution ends with the parse error instead of the second token.
\<close>

theorem getModuleName_long_line_counterexample:
  "strings_Split (dropCR (first_line long_manifest)) (CHR '' '') =
     [''module'', replicate 65529 (CHR ''x'')]
   \<and> length (first_line long_manifest) = MaxScanTokenSize
   \<and> fst (getModuleName ''/work/long'' example_world_long) =
       Inl (Errorf ''unable to parse module header'' None)"
proof (intro conjI)
  have x: "CHR '' '' \<notin> set (replicate 65529 (CHR ''x''))"
    by (simp)
  have d: "dropCR (first_line long_manifest) = ''module'' @ CHR '' '' # replicate 65529 (CHR ''x'')"
    by (simp add: first_line_long_manifest dropCR_def)
  show "strings_Split (dropCR (first_line long_manifest)) (CHR '' '') =
          [''module'', replicate 65529 (CHR ''x'')]"
    unfolding d strings_Split_append using x by (simp add: strings_Split_one)
  show len: "length (first_line long_manifest) = MaxScanTokenSize"
    by (simp add: first_line_long_manifest MaxScanTokenSize_def)
  have o: "fst (os_Open (Join ''/work/long'' ''go.mod'') example_world_long) =
            (Some (OsFile 0 ''/work/long/go.mod'' [''work'', ''long'', ''go.mod'']), None)"
    by (simp add: eval_simps example_world_long_def)
  have r: "file_ReadAll (Some (OsFile 0 ''/work/long/go.mod'' [''work'', ''long'', ''go.mod'']))
              (snd (os_Open (Join ''/work/long'' ''go.mod'') example_world_long)) = Inr long_manifest"
    by (simp add: eval_simps example_world_long_def)
  have "Scan_Text (Some (OsFile 0 ''/work/long/go.mod'' [''work'', ''long'', ''go.mod'']))
          (snd (os_Open (Join ''/work/long'' ''go.mod'') example_world_long)) = []"
    using Scan_Text_too_long [OF r] len by simp
  then show "fst (getModuleName ''/work/long'' example_world_long) =
       Inl (Errorf ''unable to parse module header'' None)"
    using o by (simp add: getModuleName_result Let_def)
qed

text \<open>
  C9.  A module name that is returned is one element of a split on single spaces, so
  it contains no space.
\<close>

theorem getModuleName_no_space:
  assumes "fst (getModuleName path w) = Inr name"
  shows "CHR '' '' \<notin> set name"
proof -
  let ?r = "os_Open (Join path ''go.mod'') w"
  let ?parts = "strings_Split (Scan_Text (fst (fst ?r)) (snd ?r)) (CHR '' '')"
  from assms have "1 < length ?parts \<and> name = ?parts ! 1"
    by (simp add: getModuleName_result Let_def split: if_splits)
  then have "name \<in> set ?parts"
    by (metis nth_mem)
  then show ?thesis
    by (rule strings_Split_no_sep)
qed

theorem getModuleName_no_space_witness:
  "fst (getModuleName ''mod'' example_world) = Inr ''example.com/foo''
   \<and> CHR '' '' \<notin> set ''example.com/foo''"
proof -
  have h: "fst (getModuleName ''mod'' example_world) = Inr ''example.com/foo''"
    by (simp add: getModuleName_result eval_simps Scan_Text_def first_line_def dropCR_def
        MaxScanTokenSize_def)
  from h getModuleName_no_space [OF h] show ?thesis
    by blast
qed

text \<open>
  C10.  A manifest that opens and reads, and is empty or has no space in its first
  line, fails in the parse branch; the error wrapped there is the open error, which is
  nil at that point.
\<close>

theorem getModuleName_parse_error_wraps_nil:
  assumes "fst (os_Open (Join path ''go.mod'') w) = (Some f, None)"
      and "file_ReadAll (Some f) (snd (os_Open (Join path ''go.mod'') w)) = Inr d"
      and "d = [] \<or> CHR '' '' \<notin> set (first_line d)"
  shows "fst (getModuleName path w) = Inl (Errorf ''unable to parse module header'' None)
       \<and> fst (getModuleName path w) \<noteq>
           Inl (Errorf ''unable to open module file'' (snd (fst (os_Open (Join path ''go.mod'') w))))"
proof -
  let ?w1 = "snd (os_Open (Join path ''go.mod'') w)"
  from assms(3) have nosp: "CHR '' '' \<notin> set (first_line d)"
    by (auto simp: first_line_def)
  have "CHR '' '' \<notin> set (Scan_Text (Some f) ?w1)"
  proof (cases "length (first_line d) < MaxScanTokenSize")
    case True
    then show ?thesis
      using Scan_Text_fits [OF assms(2)] nosp set_dropCR [of "first_line d"] by auto
  next
    case False
    then show ?thesis
      using Scan_Text_too_long [OF assms(2)] by simp
  qed
  then have "length (strings_Split (Scan_Text (Some f) ?w1) (CHR '' '')) = 1"
    by (simp add: strings_Split_one)
  then show ?thesis
    using assms(1) by (simp add: getModuleName_result Let_def)
qed

theorem getModuleName_parse_error_wraps_nil_witness:
  "fst (getModuleName ''/work/empty'' example_world) =
     Inl (Errorf ''unable to parse module header'' None)
   \<and> fst (getModuleName ''/work/one'' example_world) =
     Inl (Errorf ''unable to parse module header'' None)"
proof (intro conjI)
  have o1: "fst (os_Open (Join ''/work/empty'' ''go.mod'') example_world) =
            (Some (OsFile 0 ''/work/empty/go.mod'' [''work'', ''empty'', ''go.mod'']), None)"
    by (simp add: eval_simps)
  have r1: "file_ReadAll (Some (OsFile 0 ''/work/empty/go.mod'' [''work'', ''empty'', ''go.mod'']))
              (snd (os_Open (Join ''/work/empty'' ''go.mod'') example_world)) = Inr []"
    by (simp add: eval_simps)
  show "fst (getModuleName ''/work/empty'' example_world) =
        Inl (Errorf ''unable to parse module header'' None)"
    using getModuleName_parse_error_wraps_nil [OF o1 r1] by simp
  have o2: "fst (os_Open (Join ''/work/one'' ''go.mod'') example_world) =
            (Some (OsFile 0 ''/work/one/go.mod'' [''work'', ''one'', ''go.mod'']), None)"
    by (simp add: eval_simps)
  have r2: "file_ReadAll (Some (OsFile 0 ''/work/one/go.mod'' [''work'', ''one'', ''go.mod'']))
              (snd (os_Open (Join ''/work/one'' ''go.mod'') example_world)) =
            Inr (''module'' @ [CHR 0x0A])"
    by (simp add: eval_simps)
  show "fst (getModuleName ''/work/one'' example_world) =
        Inl (Errorf ''unable to parse module header'' None)"
    using getModuleName_parse_error_wraps_nil [OF o2 r2] by (simp add: first_line_def)
qed

section \<open>Files in the tree\<close>

lemma lookup_append:
  "lookup r (xs @ ys) = (case lookup r xs of None \<Rightarrow> None | Some m \<Rightarrow> lookup m ys)"
  "lookup_in ents e (xs @ ys) = (case lookup_in ents e xs of None \<Rightarrow> None | Some m \<Rightarrow> lookup m ys)"
  by (induction r xs and ents e xs rule: lookup_lookup_in.induct) auto

lemma lookup_butlast: "lookup r cur = Some n \<Longrightarrow> \<exists>m. lookup r (butlast cur) = Some m"
proof (cases "cur = []")
  case True
  then show ?thesis by simp
next
  case False
  assume a: "lookup r cur = Some n"
  from False have "cur = butlast cur @ [last cur]" by simp
  with a lookup_append(1) [of r "butlast cur" "[last cur]"] show ?thesis
    by (auto split: option.splits)
qed

lemma lookup_parent_dir:
  assumes "lookup r loc = Some n" and "loc \<noteq> []"
  shows "\<exists>d. lookup r (butlast loc) = Some (Directory d)"
proof -
  from assms(2) have "loc = butlast loc @ [last loc]" by simp
  with assms(1) lookup_append(1) [of r "butlast loc" "[last loc]"]
  obtain m where m: "lookup r (butlast loc) = Some m" "lookup m [last loc] = Some n"
    by (auto split: option.splits)
  then show ?thesis by (cases m) auto
qed

lemma lookup_put:
  "loc = [] \<or> (\<exists>d. lookup r (butlast loc) = Some (Directory d)) \<Longrightarrow>
     lookup (put r loc new) loc = Some new"
  "es = [] \<or> (\<exists>d. lookup_in ents e (butlast es) = Some (Directory d)) \<Longrightarrow>
     lookup_in (put_in ents e es new) e es = Some new"
  by (induction r loc new and ents e es new rule: put_put_in.induct) (auto split: if_splits)

lemma lookup_put_existing: "lookup r loc = Some n \<Longrightarrow> lookup (put r loc new) loc = Some new"
  using lookup_parent_dir [of r loc n] lookup_put(1) [of loc r new] by blast

lemma namei_parent:
  "namei r links follow cur es = Inr loc \<Longrightarrow> es \<noteq> [] \<Longrightarrow> lookup r loc = None \<Longrightarrow>
   loc \<noteq> [] \<and> (\<exists>d. lookup r (butlast loc) = Some (Directory d))"
proof (induction r links follow cur es rule: namei.induct)
  case (1 r links follow cur)
  then show ?case by simp
next
  case (2 r links follow cur e es)
  from "2.prems"(1) obtain ents where d: "lookup r cur = Some (Directory ents)"
    by (auto split: option.splits node.splits)
  show ?case
  proof (cases "es = []")
    case True
    with "2.prems" d "2.IH" show ?thesis
      by (auto simp: strings_Split_not_Nil split: option.splits node.splits if_splits
          dest: lookup_butlast)
  next
    case False
    with "2.prems" d "2.IH" show ?thesis
      by (auto simp: strings_Split_not_Nil split: option.splits node.splits if_splits)
  qed
qed

lemma resolve_parent:
  "resolve w name = Inr loc \<Longrightarrow> lookup (root w) loc = None \<Longrightarrow>
   \<exists>d. lookup (root w) (butlast loc) = Some (Directory d)"
  using namei_parent [of "root w" MAXSYMLINKS True _ "strings_Split name Separator" loc]
  by (auto simp: resolve_def strings_Split_not_Nil split: if_splits)

lemma os_OpenFile_creat:
  assumes "snd (fst (os_OpenFile name True perm w)) = None"
  shows "\<exists>loc. resolve w name = Inr loc
          \<and> os_OpenFile name True perm w =
              ((Some (OsFile (next_fd w) name loc), None),
               w\<lparr>events := events w @ [Opened (next_fd w) name],
                 root := put (root w) loc (Regular (Bytes []) (mode_after w loc perm))\<rparr>)
          \<and> lookup (put (root w) loc (Regular (Bytes []) (mode_after w loc perm))) loc =
              Some (Regular (Bytes []) (mode_after w loc perm))"
proof -
  from assms obtain loc where loc: "resolve w name = Inr loc" "\<not> faults w OpOpen name"
    by (auto simp: os_OpenFile_def split: if_splits sum.splits)
  show ?thesis
  proof (cases "lookup (root w) loc")
    case None
    with loc resolve_parent [OF loc(1) None] show ?thesis
      by (auto simp: os_OpenFile_def Let_def mode_after_def lookup_put)
  next
    case (Some n)
    with loc assms show ?thesis
      by (cases n) (auto simp: os_OpenFile_def Let_def mode_after_def lookup_put_existing)
  qed
qed

lemma ioutil_WriteFile_ok:
  assumes "fst (ioutil_WriteFile name data perm w) = None"
  shows "\<exists>loc. resolve w name = Inr loc
          \<and> lookup (root (snd (ioutil_WriteFile name data perm w))) loc =
              Some (Regular (Bytes data) (mode_after w loc perm))
          \<and> length (events w) \<le> length (events (snd (ioutil_WriteFile name data perm w)))"
proof -
  from assms have ok: "snd (fst (os_OpenFile name True perm w)) = None"
    by (auto simp: ioutil_WriteFile_def Let_def case_prod_beta split: if_splits)
  from os_OpenFile_creat [OF ok] obtain loc where
    loc: "resolve w name = Inr loc"
    and op: "os_OpenFile name True perm w =
              ((Some (OsFile (next_fd w) name loc), None),
               w\<lparr>events := events w @ [Opened (next_fd w) name],
                 root := put (root w) loc (Regular (Bytes []) (mode_after w loc perm))\<rparr>)"
    and lk: "lookup (put (root w) loc (Regular (Bytes []) (mode_after w loc perm))) loc =
              Some (Regular (Bytes []) (mode_after w loc perm))"
    by blast
  from assms op lk loc show ?thesis
    by (auto simp: ioutil_WriteFile_def Let_def case_prod_beta bytes_of_def lookup_put_existing
        split: if_splits)
qed

lemma ioutil_ReadFile_events:
  "fst (ioutil_ReadFile name w) = Inr data \<Longrightarrow>
   length (events w) < length (events (snd (ioutil_ReadFile name w)))
   \<and> root (snd (ioutil_ReadFile name w)) = root w
   \<and> umask (snd (ioutil_ReadFile name w)) = umask w
   \<and> cwd (snd (ioutil_ReadFile name w)) = cwd w"
  apply (auto simp: ioutil_ReadFile_def os_Open_def os_OpenFile_def Let_def case_prod_beta
      split: if_splits sum.splits option.splits node.splits)
  done


lemma resolve_same: "root w' = root w \<Longrightarrow> cwd w' = cwd w \<Longrightarrow> resolve w' p = resolve w p"
  by (simp add: resolve_def)

lemma mode_0644_not_executable: "(420 AND NOT u) AND 73 = (0 :: FileMode)"
proof -
  have "(420 AND NOT u) AND 73 = (420 AND 73) AND NOT u"
    by (simp add: and.assoc and.commute and.left_commute)
  also have "(420 :: FileMode) AND 73 = 0"
    by simp
  finally show ?thesis by simp
qed

section \<open>Copying the manifest\<close>

text \<open>
  C5 (as amended).  The step returns nil and leaves the world as it was exactly when
  the output directory is the string \<open>.\<close> or the two joined manifest paths are the same
  string.  In every other case in which it returns nil (the read and the write did not
  fail), the destination holds the bytes read from the source manifest; a file the step
  creates has mode 0644 less the umask, which has no execute bit (mask 0111 is 73), and
  a file that was there keeps its mode.
\<close>

theorem copyModuleFile_skip_or_copy:
  "((copyModuleFile path outputDirectory w = (None, w)) =
      (outputDirectory = ''.'' \<or> Join path ''go.mod'' = Join outputDirectory ''go.mod''))
   \<and> (outputDirectory \<noteq> ''.'' \<and> Join path ''go.mod'' \<noteq> Join outputDirectory ''go.mod''
        \<and> fst (copyModuleFile path outputDirectory w) = None \<longrightarrow>
       (\<exists>data loc.
          fst (ioutil_ReadFile (Join path ''go.mod'') w) = Inr data
          \<and> resolve w (Join outputDirectory ''go.mod'') = Inr loc
          \<and> lookup (root (snd (copyModuleFile path outputDirectory w))) loc =
               Some (Regular (Bytes data) (mode_after w loc 420))))
   \<and> (lookup (root w) loc = None \<longrightarrow> mode_after w loc 420 AND 73 = 0)
   \<and> (lookup (root w) loc = Some (Regular c m) \<longrightarrow> mode_after w loc 420 = m)"
proof (intro conjI impI)
  let ?src = "Join path ''go.mod''" and ?dst = "Join outputDirectory ''go.mod''"
  let ?r = "ioutil_ReadFile ?src w"
  let ?wr = "ioutil_WriteFile ?dst (projr (fst ?r)) 420 (snd ?r)"
  have unf: "copyModuleFile path outputDirectory w =
      (case fst ?r of
         Inl err \<Rightarrow> (Some (Errorf ''unable to read module file'' (Some err)), snd ?r)
       | Inr moduleContents \<Rightarrow>
           (if fst ?wr \<noteq> None then (Some (Errorf ''unable to write module file'' (fst ?wr)), snd ?wr)
            else (None, snd ?wr)))"
    if "outputDirectory \<noteq> ''.''" "?src \<noteq> ?dst"
    using that by (auto simp: copyModuleFile_def Let_def case_prod_beta split: sum.splits prod.splits)
  show "(copyModuleFile path outputDirectory w = (None, w)) =
        (outputDirectory = ''.'' \<or> ?src = ?dst)"
  proof
    assume "outputDirectory = ''.'' \<or> ?src = ?dst"
    then show "copyModuleFile path outputDirectory w = (None, w)"
      by (auto simp: copyModuleFile_def Let_def)
  next
    assume a: "copyModuleFile path outputDirectory w = (None, w)"
    show "outputDirectory = ''.'' \<or> ?src = ?dst"
    proof (rule ccontr)
      assume "\<not> (outputDirectory = ''.'' \<or> ?src = ?dst)"
      then have n: "outputDirectory \<noteq> ''.''" "?src \<noteq> ?dst" by auto
      from a unf [OF n] obtain data where d: "fst ?r = Inr data" and wr: "fst ?wr = None"
        and w: "snd ?wr = w"
        by (auto split: sum.splits if_splits)
      from ioutil_ReadFile_events [OF d] have "length (events w) < length (events (snd ?r))"
        by simp
      moreover from ioutil_WriteFile_ok [OF wr]
      have "length (events (snd ?r)) \<le> length (events (snd ?wr))" by blast
      ultimately show False using w by simp
    qed
  qed
  {
    assume a: "outputDirectory \<noteq> ''.'' \<and> ?src \<noteq> ?dst
               \<and> fst (copyModuleFile path outputDirectory w) = None"
    then have n: "outputDirectory \<noteq> ''.''" "?src \<noteq> ?dst" by auto
    from a unf [OF n] obtain data where d: "fst ?r = Inr data" and wr: "fst ?wr = None"
      and w: "snd (copyModuleFile path outputDirectory w) = snd ?wr"
      by (auto split: sum.splits if_splits)
    from ioutil_ReadFile_events [OF d] have same: "root (snd ?r) = root w" "umask (snd ?r) = umask w"
      "cwd (snd ?r) = cwd w"
      by auto
    from ioutil_WriteFile_ok [OF wr] obtain loc where
      loc: "resolve (snd ?r) ?dst = Inr loc"
        "lookup (root (snd ?wr)) loc = Some (Regular (Bytes (projr (fst ?r))) (mode_after (snd ?r) loc 420))"
      by blast
    have "resolve w ?dst = Inr loc"
      using loc(1) resolve_same [OF same(1) same(3)] by simp
    moreover have "mode_after (snd ?r) loc 420 = mode_after w loc 420"
      using same by (simp add: mode_after_def split: option.splits node.splits)
    ultimately show "\<exists>data loc.
          fst (ioutil_ReadFile ?src w) = Inr data
          \<and> resolve w ?dst = Inr loc
          \<and> lookup (root (snd (copyModuleFile path outputDirectory w))) loc =
               Some (Regular (Bytes data) (mode_after w loc 420))"
      using d loc(2) w by auto
  }
  {
    assume "lookup (root w) loc = None"
    then show "mode_after w loc 420 AND 73 = 0"
      by (simp add: mode_after_def mode_0644_not_executable)
  }
  {
    assume "lookup (root w) loc = Some (Regular c m)"
    then show "mode_after w loc 420 = m"
      by (simp add: mode_after_def)
  }
qed


theorem copyModuleFile_skip_or_copy_witness:
  "copyModuleFile ''/work/mod'' ''.'' example_world = (None, example_world)
   \<and> (\<exists>data loc.
          fst (ioutil_ReadFile (Join ''/work/mod'' ''go.mod'') example_world) = Inr data
          \<and> resolve example_world (Join ''/work/out'' ''go.mod'') = Inr loc
          \<and> lookup (root (snd (copyModuleFile ''/work/mod'' ''/work/out'' example_world))) loc =
               Some (Regular (Bytes data) (mode_after example_world loc 420)))
   \<and> mode_after example_world [''work'', ''out'', ''go.mod''] 420 AND 73 = 0"
proof (intro conjI)
  show "copyModuleFile ''/work/mod'' ''.'' example_world = (None, example_world)"
    using copyModuleFile_skip_or_copy [of "''/work/mod''" "''.''" example_world] by simp
  have h: "''/work/out'' \<noteq> ''.'' \<and> Join ''/work/mod'' ''go.mod'' \<noteq> Join ''/work/out'' ''go.mod''
        \<and> fst (copyModuleFile ''/work/mod'' ''/work/out'' example_world) = None"
    by (simp add: eval_simps io_simps)
  with copyModuleFile_skip_or_copy [of "''/work/mod''" "''/work/out''" example_world]
  show "\<exists>data loc.
          fst (ioutil_ReadFile (Join ''/work/mod'' ''go.mod'') example_world) = Inr data
          \<and> resolve example_world (Join ''/work/out'' ''go.mod'') = Inr loc
          \<and> lookup (root (snd (copyModuleFile ''/work/mod'' ''/work/out'' example_world))) loc =
               Some (Regular (Bytes data) (mode_after example_world loc 420))"
    by blast
  have n: "lookup (root example_world) [''work'', ''out'', ''go.mod''] = None"
    by (simp add: eval_simps)
  with copyModuleFile_skip_or_copy [of _ _ example_world "[''work'', ''out'', ''go.mod'']"]
  show "mode_after example_world [''work'', ''out'', ''go.mod''] 420 AND 73 = 0"
    by blast
qed

text \<open>
  The claim as it was stated fails where the destination exists and is executable: the
  copy is written, and the file still has mode 0755.
\<close>

theorem copyModuleFile_existing_mode_counterexample:
  "lookup (root example_world_exec) [''work'', ''out'', ''go.mod''] =
     Some (Regular (Bytes ''old'') 493)
   \<and> fst (copyModuleFile ''/work/mod'' ''/work/out'' example_world_exec) = None
   \<and> lookup (root (snd (copyModuleFile ''/work/mod'' ''/work/out'' example_world_exec)))
        [''work'', ''out'', ''go.mod''] =
      Some (Regular (Bytes (''module example.com/foo'' @ [CHR 0x0A] @ ''go 1.13'' @ [CHR 0x0A])) 493)
   \<and> (493 :: FileMode) AND 73 \<noteq> 0"
  by (simp add: eval_simps io_simps example_world_exec_def)

section \<open>The four steps in sequence\<close>

lemma os_Open_root: "root (snd (os_Open name w)) = root w"
  by (simp add: os_Open_def os_OpenFile_def Let_def split: sum.splits option.splits node.splits)

lemma file_Close_root: "root (snd (file_Close f w)) = root w"
  by (cases "(f, w)" rule: file_Close.cases) auto

lemma getModuleName_root: "root (snd (getModuleName path w)) = root w"
  by (simp add: getModuleName_def Let_def case_prod_beta file_Close_root os_Open_root)

lemma Module_unfold:
  "Module path version outputDirectory w =
     (let r1 = getModuleName path w in
      case fst r1 of
        Inl err \<Rightarrow> (Some (Errorf ''could not get module name'' (Some err)), snd r1)
      | Inr moduleName \<Rightarrow>
          (let r2 = createZipArchive path moduleName version outputDirectory (snd r1) in
           if fst r2 \<noteq> None then (Some (Errorf ''could not create zip archive'' (fst r2)), snd r2)
           else
             (let r3 = createInfoFile version outputDirectory (snd r2) in
              if fst r3 \<noteq> None then (Some (Errorf ''could not create info file'' (fst r3)), snd r3)
              else
                (let r4 = copyModuleFile path outputDirectory (snd r3) in
                 if fst r4 \<noteq> None then (Some (Errorf ''could not copy module file'' (fst r4)), snd r4)
                 else (None, snd r4)))))"
  by (simp add: Module_def Let_def case_prod_beta split: sum.splits prod.splits)

text \<open>
  C6.  \<open>Module\<close> stops at the first step that fails: it returns that step's error
  wrapped in the message of the step, and the world it returns is the one the failing
  step left, so no later step has run and nothing written so far is removed.  When the
  name cannot be resolved the tree is unchanged: no archive, info file or manifest copy
  exists that did not exist before.
\<close>

theorem Module_aborts_at_first_failure:
  "(fst (getModuleName path w) = Inl e \<longrightarrow>
      Module path version outputDirectory w =
        (Some (Errorf ''could not get module name'' (Some e)), snd (getModuleName path w))
      \<and> root (snd (Module path version outputDirectory w)) = root w)
   \<and> (fst (getModuleName path w) = Inr moduleName \<longrightarrow>
        (let r2 = createZipArchive path moduleName version outputDirectory (snd (getModuleName path w));
             r3 = createInfoFile version outputDirectory (snd r2);
             r4 = copyModuleFile path outputDirectory (snd r3)
         in (fst r2 = Some e \<longrightarrow>
               Module path version outputDirectory w =
                 (Some (Errorf ''could not create zip archive'' (Some e)), snd r2))
          \<and> (fst r2 = None \<and> fst r3 = Some e \<longrightarrow>
               Module path version outputDirectory w =
                 (Some (Errorf ''could not create info file'' (Some e)), snd r3))
          \<and> (fst r2 = None \<and> fst r3 = None \<and> fst r4 = Some e \<longrightarrow>
               Module path version outputDirectory w =
                 (Some (Errorf ''could not copy module file'' (Some e)), snd r4))
          \<and> (fst r2 = None \<and> fst r3 = None \<and> fst r4 = None \<longrightarrow>
               Module path version outputDirectory w = (None, snd r4))))"
  by (simp add: Module_unfold Let_def getModuleName_root)

lemmas pack_simps =
  getModuleName_result Scan_Text_def first_line_def dropCR_def MaxScanTokenSize_def zip_simps

theorem Module_aborts_at_first_failure_witness:
  "fst (Module ''/work/one'' ''v1.0.0'' ''/work/out'' example_world) =
     Some (Errorf ''could not get module name'' (Some (Errorf ''unable to parse module header'' None)))
   \<and> root (snd (Module ''/work/one'' ''v1.0.0'' ''/work/out'' example_world)) = root example_world
   \<and> fst (Module ''/work/mod'' ''v1.0.0'' ''/work/out'' example_world_faulty) =
       Some (Errorf ''could not create zip archive''
         (Some (Errorf ''unable to copy file contents to zip archive''
           (Some (PathError ''read'' ''/work/mod/a.txt'' EIO)))))
   \<and> lookup (root (snd (Module ''/work/mod'' ''v1.0.0'' ''/work/out'' example_world_faulty)))
        [''work'', ''out''] =
       Some (Directory [(''source.zip'', Regular (Archive
         [(''example.com/foo@v1.0.0/.gitignore'', ''*.zip''),
          (''example.com/foo@v1.0.0/a.txt'', [])] True) 420)])"
proof -
  have h1: "fst (getModuleName ''/work/one'' example_world) =
            Inl (Errorf ''unable to parse module header'' None)"
    by (simp add: eval_simps pack_simps)
  note t1 = Module_aborts_at_first_failure
    [of "''/work/one''" example_world _ "''v1.0.0''" "''/work/out''", THEN conjunct1, rule_format, OF h1]
  have h2: "fst (getModuleName ''/work/mod'' example_world_faulty) = Inr ''example.com/foo''"
    by (simp add: eval_simps pack_simps example_world_faulty_def)
  have h3: "fst (createZipArchive ''/work/mod'' ''example.com/foo'' ''v1.0.0'' ''/work/out''
                  (snd (getModuleName ''/work/mod'' example_world_faulty))) =
            Some (Errorf ''unable to copy file contents to zip archive''
                   (Some (PathError ''read'' ''/work/mod/a.txt'' EIO)))"
    by (simp add: eval_simps pack_simps walk_simps example_world_faulty_def getModuleName_def)
  have l3: "lookup (root (snd (createZipArchive ''/work/mod'' ''example.com/foo'' ''v1.0.0'' ''/work/out''
                  (snd (getModuleName ''/work/mod'' example_world_faulty))))) [''work'', ''out''] =
       Some (Directory [(''source.zip'', Regular (Archive
         [(''example.com/foo@v1.0.0/.gitignore'', ''*.zip''),
          (''example.com/foo@v1.0.0/a.txt'', [])] True) 420)])"
    by (simp add: eval_simps pack_simps walk_simps example_world_faulty_def getModuleName_def)
  from Module_aborts_at_first_failure
    [of "''/work/mod''" example_world_faulty _ "''v1.0.0''" "''/work/out''" "''example.com/foo''",
     THEN conjunct2, rule_format, OF h2] h3
  have t2: "Module ''/work/mod'' ''v1.0.0'' ''/work/out'' example_world_faulty =
         (Some (Errorf ''could not create zip archive''
           (Some (Errorf ''unable to copy file contents to zip archive''
             (Some (PathError ''read'' ''/work/mod/a.txt'' EIO))))),
          snd (createZipArchive ''/work/mod'' ''example.com/foo'' ''v1.0.0'' ''/work/out''
                  (snd (getModuleName ''/work/mod'' example_world_faulty))))"
    by (simp add: Let_def)
  show ?thesis using t1 t2 l3 by (simp add: getModuleName_root)
qed

section \<open>Handles of the archive step\<close>








lemma next_fd_append_Opened: "events w' = events w @ [Opened fd name] \<Longrightarrow> next_fd w' = Suc (next_fd w)"
  by (simp add: next_fd_def)

lemma next_fd_same: "events w' = events w \<Longrightarrow> next_fd w' = next_fd w"
  by (simp add: next_fd_def)



















section \<open>The entries of the archive\<close>

lemma getFilePathsToArchive_listing:
  assumes "no_walk_faults w" and "os_Lstat path w = Inr n"
  shows "getFilePathsToArchive path w = Inr (map (foldl Join path) (expected_files path n))"
  using assms walk_archive(1) [OF refl assms(1), of path "basename path" n "[]"]
  by (simp add: getFilePathsToArchive_def Walk_def expected_files_def)

lemma files_proper:
  "wf_node n \<Longrightarrow> cs \<in> set (files_under n) \<Longrightarrow> \<forall>c\<in>set cs. proper_name c"
  "wf_entries ents \<Longrightarrow> cs \<in> set (files_among ents names) \<Longrightarrow> \<forall>c\<in>set cs. proper_name c"
proof (induction n and ents names arbitrary: cs and cs rule: files_under_files_among.induct)
  case (1 c m)
  then show ?case by simp
next
  case (2 target)
  then show ?case by simp
next
  case 3
  then show ?case by simp
next
  case (4 ents)
  then show ?case by simp
next
  case (5 ents)
  then show ?case by simp
next
  case (6 ents n ns)
  show ?case
  proof (cases "cs \<in> set (files_among ents ns)")
    case True
    then show ?thesis using 6 by blast
  next
    case False
    with "6.prems"(2) obtain child cs' where c: "map_of ents n = Some child"
      "cs = n # cs'" "cs' \<in> set (files_under child)"
      by (cases "map_of ents n") auto
    have wfe: "wf_entries es \<Longrightarrow> (a, b) \<in> set es \<Longrightarrow> proper_name a \<and> wf_node b" for es a b
      by (induction es) auto
    from c(1) have "(n, child) \<in> set ents" by (rule map_of_SomeD)
    with wfe [OF "6.prems"(1)] have "proper_name n" "wf_node child" by auto
    with "6.IH"(1) [OF c(1) _ c(3)] c(2) show ?thesis by simp
  qed
qed












lemma no_walk_faults_example: "no_walk_faults example_world"
  by (simp add: no_walk_faults_def example_world_def)






text \<open>
  The entry names of the claim's example also fail for the same directory named as
  \<open>./src\<close>, a module path that is not in cleaned form: the walk
  yields the cleaned paths \<open>src/a.txt\<close> and \<open>src/sub/b.txt\<close>, which do not start with
  \<open>./src\<close>, so the entries keep the \<open>src\<close> element.
\<close>

theorem createZipArchive_uncleaned_path_counterexample:
  "os_Lstat ''./src'' example_world = os_Lstat ''/work/src'' example_world
   \<and> fst (createZipArchive ''./src'' ''example.com/foo'' ''v1.0.0'' ''/work/out'' example_world) = None
   \<and> lookup (root (snd (createZipArchive ''./src'' ''example.com/foo'' ''v1.0.0''
                           ''/work/out'' example_world))) [''work'', ''out'', ''source.zip''] =
        Some (Regular (Archive [(''example.com/foo@v1.0.0/src/a.txt'', ''ay''),
                                (''example.com/foo@v1.0.0/src/sub/b.txt'', ''bee'')] True) 420)"
  by (simp add: eval_simps walk_simps zip_simps)


text \<open>
  C8 (as amended).  For a module path in cleaned form other than \<open>.\<close> that names a
  directory, and every file path the walk of it yields, the entry path is the same for
  the module path and for the module path with a separator added.
\<close>

theorem getZipPath_trailing_separator:
  assumes "Clean path = path" and "path \<noteq> ''.''"
      and "no_walk_faults w" and "os_Lstat path w = Inr (Directory ents)" and "wf_entries ents"
      and "getFilePathsToArchive path w = Inr files" and "f \<in> set files"
  shows "getZipPath path f moduleName version = getZipPath (path @ [Separator]) f moduleName version"
proof -
  let ?nv = "moduleName @ ''@'' @ version"
  from getFilePathsToArchive_listing [OF assms(3,4)] assms(6,7)
  obtain cs where cs: "cs \<in> set (expected_files path (Directory ents))" "f = foldl Join path cs"
    by auto
  then have csf: "cs \<in> set (files_under (Directory ents))"
    by (auto simp: expected_files_def split: if_splits)
  then have ne: "cs \<noteq> []"
    using files_among_nonempty by auto
  have pr: "\<forall>c\<in>set cs. proper_name c"
    using files_proper(1) [of "Directory ents" cs] assms(5) csf by simp
  have nvne: "?nv \<noteq> []" by simp
  have l: "getZipPath path f moduleName version = Join ?nv (strings_Join cs)"
    unfolding cs(2) using assms(1,2) pr by (rule getZipPath_walked)
  note fj = foldl_Join_proper [OF assms(1,2) pr ne]
  have el: "\<forall>x\<in>set cs. element x"
    using pr by (simp add: proper_name_element)
  from strings_Join_no_doubled [OF el] ne
  have J: "strings_Join cs \<noteq> []" "hd (strings_Join cs) \<noteq> Separator" by auto
  show ?thesis
  proof (cases "path = [Separator]")
    case True
    then have f: "f = Separator # strings_Join cs" using fj cs(2) by simp
    have "take (Suc (Suc 0)) f \<noteq> [Separator, Separator]"
      using f J by (cases "strings_Join cs") auto
    then have "strings_TrimPrefix f (path @ [Separator]) = f"
      using True by (simp add: strings_TrimPrefix_def)
    then have "getZipPath (path @ [Separator]) f moduleName version = Join ?nv (strings_Join cs)"
      unfolding getZipPath_def Let_def f using Join_leading_separator [OF nvne] by simp
    with l show ?thesis by simp
  next
    case False
    then have "f = (path @ [Separator]) @ strings_Join cs" using fj cs(2) by simp
    then have "strings_TrimPrefix f (path @ [Separator]) = strings_Join cs"
      by (simp only: TrimPrefix_append)
    then have "getZipPath (path @ [Separator]) f moduleName version = Join ?nv (strings_Join cs)"
      by (simp add: getZipPath_def)
    with l show ?thesis by simp
  qed
qed

theorem getZipPath_trailing_separator_witness:
  "getFilePathsToArchive ''/work/src'' example_world = Inr [''/work/src/a.txt'', ''/work/src/sub/b.txt'']
   \<and> getZipPath ''/work/src'' ''/work/src/sub/b.txt'' ''example.com/foo'' ''v1.0.0'' =
       getZipPath ''/work/src/'' ''/work/src/sub/b.txt'' ''example.com/foo'' ''v1.0.0''
   \<and> getZipPath ''/work/src/'' ''/work/src/sub/b.txt'' ''example.com/foo'' ''v1.0.0'' =
       ''example.com/foo@v1.0.0/sub/b.txt''"
proof -
  let ?ents = "[(''sub'', Directory [(''b.txt'', Regular (Bytes ''bee'') 420)]),
           (''a.txt'', Regular (Bytes ''ay'') 420),
           (''.git'', Directory [(''config'', Regular (Bytes ''[core]'') 420)])]"
  have c: "Clean ''/work/src'' = ''/work/src''" "''/work/src'' \<noteq> ''.''"
    by (simp_all add: eval_simps)
  have ls: "os_Lstat ''/work/src'' example_world = Inr (Directory ?ents)"
    by (simp add: eval_simps walk_simps)
  have wf: "wf_entries ?ents"
    by (simp add: proper_name_def Separator_def)
  have fs: "getFilePathsToArchive ''/work/src'' example_world =
            Inr [''/work/src/a.txt'', ''/work/src/sub/b.txt'']"
    by (simp add: eval_simps walk_simps)
  have m: "''/work/src/sub/b.txt'' \<in> set [''/work/src/a.txt'', ''/work/src/sub/b.txt'']"
    by simp
  from getZipPath_trailing_separator [OF c no_walk_faults_example ls wf fs m,
      of "''example.com/foo''" "''v1.0.0''"]
  show ?thesis using fs by (simp add: Separator_def) (simp add: eval_simps)
qed

text \<open>
  The claim as it was stated fails for the module path \<open>.\<close>: the walk yields
  \<open>.gitignore\<close>, from which the strip of \<open>.\<close> takes the dot, while \<open>./\<close> is not
  a prefix of it.
\<close>

theorem getZipPath_trailing_separator_counterexample:
  "getFilePathsToArchive ''.'' example_world_in_mod =
     Inr [''.gitignore'', ''a.txt'', ''go.mod'', ''sub/b.txt'']
   \<and> getZipPath ''.'' ''.gitignore'' ''example.com/foo'' ''v1.0.0'' = ''example.com/foo@v1.0.0/gitignore''
   \<and> getZipPath ''./'' ''.gitignore'' ''example.com/foo'' ''v1.0.0'' = ''example.com/foo@v1.0.0/.gitignore''
   \<and> getZipPath ''.'' ''.gitignore'' ''example.com/foo'' ''v1.0.0'' \<noteq>
       getZipPath ''./'' ''.gitignore'' ''example.com/foo'' ''v1.0.0''"
  by (simp add: eval_simps walk_simps example_world_in_mod_def)


end
